theory Spec2Isabelle
  imports Main
begin

section \<open>Token model (token.h)\<close>

text \<open>
  \<^verbatim>\<open>TokenType\<close> is a C enumeration; its enumerators are the consecutive integers from 0
  in the order of declaration, and the model keeps them as such: \<open>Tok n\<close> is the enumerator
  of value \<open>n\<close>.
\<close>

datatype TokenType = Tok nat

abbreviation TOKEN_INTEGER :: TokenType where "TOKEN_INTEGER \<equiv> Tok 0"
abbreviation TOKEN_FLOAT :: TokenType where "TOKEN_FLOAT \<equiv> Tok 1"
abbreviation TOKEN_STRING :: TokenType where "TOKEN_STRING \<equiv> Tok 2"
abbreviation TOKEN_CHAR :: TokenType where "TOKEN_CHAR \<equiv> Tok 3"
abbreviation TOKEN_IDENTIFIER :: TokenType where "TOKEN_IDENTIFIER \<equiv> Tok 4"
abbreviation TOKEN_INT :: TokenType where "TOKEN_INT \<equiv> Tok 5"
abbreviation TOKEN_FLOAT_KW :: TokenType where "TOKEN_FLOAT_KW \<equiv> Tok 6"
abbreviation TOKEN_STRING_KW :: TokenType where "TOKEN_STRING_KW \<equiv> Tok 7"
abbreviation TOKEN_BOOL_KW :: TokenType where "TOKEN_BOOL_KW \<equiv> Tok 8"
abbreviation TOKEN_CHAR_KW :: TokenType where "TOKEN_CHAR_KW \<equiv> Tok 9"
abbreviation TOKEN_VOID_KW :: TokenType where "TOKEN_VOID_KW \<equiv> Tok 10"
abbreviation TOKEN_IF :: TokenType where "TOKEN_IF \<equiv> Tok 11"
abbreviation TOKEN_ELSE :: TokenType where "TOKEN_ELSE \<equiv> Tok 12"
abbreviation TOKEN_WHILE :: TokenType where "TOKEN_WHILE \<equiv> Tok 13"
abbreviation TOKEN_FOR :: TokenType where "TOKEN_FOR \<equiv> Tok 14"
abbreviation TOKEN_DO :: TokenType where "TOKEN_DO \<equiv> Tok 15"
abbreviation TOKEN_SWITCH :: TokenType where "TOKEN_SWITCH \<equiv> Tok 16"
abbreviation TOKEN_CASE :: TokenType where "TOKEN_CASE \<equiv> Tok 17"
abbreviation TOKEN_DEFAULT :: TokenType where "TOKEN_DEFAULT \<equiv> Tok 18"
abbreviation TOKEN_BREAK :: TokenType where "TOKEN_BREAK \<equiv> Tok 19"
abbreviation TOKEN_CONTINUE :: TokenType where "TOKEN_CONTINUE \<equiv> Tok 20"
abbreviation TOKEN_RETURN :: TokenType where "TOKEN_RETURN \<equiv> Tok 21"
abbreviation TOKEN_FUNCTION :: TokenType where "TOKEN_FUNCTION \<equiv> Tok 22"
abbreviation TOKEN_VAR :: TokenType where "TOKEN_VAR \<equiv> Tok 23"
abbreviation TOKEN_CONST :: TokenType where "TOKEN_CONST \<equiv> Tok 24"
abbreviation TOKEN_CLASS :: TokenType where "TOKEN_CLASS \<equiv> Tok 25"
abbreviation TOKEN_STRUCT :: TokenType where "TOKEN_STRUCT \<equiv> Tok 26"
abbreviation TOKEN_ENUM :: TokenType where "TOKEN_ENUM \<equiv> Tok 27"
abbreviation TOKEN_INTERFACE :: TokenType where "TOKEN_INTERFACE \<equiv> Tok 28"
abbreviation TOKEN_IMPLEMENTS :: TokenType where "TOKEN_IMPLEMENTS \<equiv> Tok 29"
abbreviation TOKEN_EXTENDS :: TokenType where "TOKEN_EXTENDS \<equiv> Tok 30"
abbreviation TOKEN_PUBLIC :: TokenType where "TOKEN_PUBLIC \<equiv> Tok 31"
abbreviation TOKEN_PRIVATE :: TokenType where "TOKEN_PRIVATE \<equiv> Tok 32"
abbreviation TOKEN_PROTECTED :: TokenType where "TOKEN_PROTECTED \<equiv> Tok 33"
abbreviation TOKEN_STATIC :: TokenType where "TOKEN_STATIC \<equiv> Tok 34"
abbreviation TOKEN_FINAL :: TokenType where "TOKEN_FINAL \<equiv> Tok 35"
abbreviation TOKEN_ABSTRACT :: TokenType where "TOKEN_ABSTRACT \<equiv> Tok 36"
abbreviation TOKEN_VIRTUAL :: TokenType where "TOKEN_VIRTUAL \<equiv> Tok 37"
abbreviation TOKEN_OVERRIDE :: TokenType where "TOKEN_OVERRIDE \<equiv> Tok 38"
abbreviation TOKEN_TRY :: TokenType where "TOKEN_TRY \<equiv> Tok 39"
abbreviation TOKEN_CATCH :: TokenType where "TOKEN_CATCH \<equiv> Tok 40"
abbreviation TOKEN_FINALLY :: TokenType where "TOKEN_FINALLY \<equiv> Tok 41"
abbreviation TOKEN_THROW :: TokenType where "TOKEN_THROW \<equiv> Tok 42"
abbreviation TOKEN_IMPORT :: TokenType where "TOKEN_IMPORT \<equiv> Tok 43"
abbreviation TOKEN_EXPORT :: TokenType where "TOKEN_EXPORT \<equiv> Tok 44"
abbreviation TOKEN_MODULE :: TokenType where "TOKEN_MODULE \<equiv> Tok 45"
abbreviation TOKEN_NAMESPACE :: TokenType where "TOKEN_NAMESPACE \<equiv> Tok 46"
abbreviation TOKEN_TRUE :: TokenType where "TOKEN_TRUE \<equiv> Tok 47"
abbreviation TOKEN_FALSE :: TokenType where "TOKEN_FALSE \<equiv> Tok 48"
abbreviation TOKEN_NULL :: TokenType where "TOKEN_NULL \<equiv> Tok 49"
abbreviation TOKEN_UNDEFINED :: TokenType where "TOKEN_UNDEFINED \<equiv> Tok 50"
abbreviation TOKEN_PLUS :: TokenType where "TOKEN_PLUS \<equiv> Tok 51"
abbreviation TOKEN_MINUS :: TokenType where "TOKEN_MINUS \<equiv> Tok 52"
abbreviation TOKEN_MULTIPLY :: TokenType where "TOKEN_MULTIPLY \<equiv> Tok 53"
abbreviation TOKEN_DIVIDE :: TokenType where "TOKEN_DIVIDE \<equiv> Tok 54"
abbreviation TOKEN_MODULO :: TokenType where "TOKEN_MODULO \<equiv> Tok 55"
abbreviation TOKEN_POWER :: TokenType where "TOKEN_POWER \<equiv> Tok 56"
abbreviation TOKEN_INCREMENT :: TokenType where "TOKEN_INCREMENT \<equiv> Tok 57"
abbreviation TOKEN_DECREMENT :: TokenType where "TOKEN_DECREMENT \<equiv> Tok 58"
abbreviation TOKEN_ASSIGN :: TokenType where "TOKEN_ASSIGN \<equiv> Tok 59"
abbreviation TOKEN_PLUS_ASSIGN :: TokenType where "TOKEN_PLUS_ASSIGN \<equiv> Tok 60"
abbreviation TOKEN_MINUS_ASSIGN :: TokenType where "TOKEN_MINUS_ASSIGN \<equiv> Tok 61"
abbreviation TOKEN_MULTIPLY_ASSIGN :: TokenType where "TOKEN_MULTIPLY_ASSIGN \<equiv> Tok 62"
abbreviation TOKEN_DIVIDE_ASSIGN :: TokenType where "TOKEN_DIVIDE_ASSIGN \<equiv> Tok 63"
abbreviation TOKEN_MODULO_ASSIGN :: TokenType where "TOKEN_MODULO_ASSIGN \<equiv> Tok 64"
abbreviation TOKEN_POWER_ASSIGN :: TokenType where "TOKEN_POWER_ASSIGN \<equiv> Tok 65"
abbreviation TOKEN_EQUAL :: TokenType where "TOKEN_EQUAL \<equiv> Tok 66"
abbreviation TOKEN_NOT_EQUAL :: TokenType where "TOKEN_NOT_EQUAL \<equiv> Tok 67"
abbreviation TOKEN_STRICT_EQUAL :: TokenType where "TOKEN_STRICT_EQUAL \<equiv> Tok 68"
abbreviation TOKEN_LESS :: TokenType where "TOKEN_LESS \<equiv> Tok 69"
abbreviation TOKEN_LESS_EQUAL :: TokenType where "TOKEN_LESS_EQUAL \<equiv> Tok 70"
abbreviation TOKEN_GREATER :: TokenType where "TOKEN_GREATER \<equiv> Tok 71"
abbreviation TOKEN_GREATER_EQUAL :: TokenType where "TOKEN_GREATER_EQUAL \<equiv> Tok 72"
abbreviation TOKEN_AND :: TokenType where "TOKEN_AND \<equiv> Tok 73"
abbreviation TOKEN_OR :: TokenType where "TOKEN_OR \<equiv> Tok 74"
abbreviation TOKEN_NOT :: TokenType where "TOKEN_NOT \<equiv> Tok 75"
abbreviation TOKEN_BITWISE_AND :: TokenType where "TOKEN_BITWISE_AND \<equiv> Tok 76"
abbreviation TOKEN_BITWISE_OR :: TokenType where "TOKEN_BITWISE_OR \<equiv> Tok 77"
abbreviation TOKEN_XOR :: TokenType where "TOKEN_XOR \<equiv> Tok 78"
abbreviation TOKEN_TILDE :: TokenType where "TOKEN_TILDE \<equiv> Tok 79"
abbreviation TOKEN_LSHIFT :: TokenType where "TOKEN_LSHIFT \<equiv> Tok 80"
abbreviation TOKEN_RSHIFT :: TokenType where "TOKEN_RSHIFT \<equiv> Tok 81"
abbreviation TOKEN_AND_ASSIGN :: TokenType where "TOKEN_AND_ASSIGN \<equiv> Tok 82"
abbreviation TOKEN_OR_ASSIGN :: TokenType where "TOKEN_OR_ASSIGN \<equiv> Tok 83"
abbreviation TOKEN_XOR_ASSIGN :: TokenType where "TOKEN_XOR_ASSIGN \<equiv> Tok 84"
abbreviation TOKEN_LSHIFT_ASSIGN :: TokenType where "TOKEN_LSHIFT_ASSIGN \<equiv> Tok 85"
abbreviation TOKEN_RSHIFT_ASSIGN :: TokenType where "TOKEN_RSHIFT_ASSIGN \<equiv> Tok 86"
abbreviation TOKEN_LPAREN :: TokenType where "TOKEN_LPAREN \<equiv> Tok 87"
abbreviation TOKEN_RPAREN :: TokenType where "TOKEN_RPAREN \<equiv> Tok 88"
abbreviation TOKEN_LBRACE :: TokenType where "TOKEN_LBRACE \<equiv> Tok 89"
abbreviation TOKEN_RBRACE :: TokenType where "TOKEN_RBRACE \<equiv> Tok 90"
abbreviation TOKEN_LBRACKET :: TokenType where "TOKEN_LBRACKET \<equiv> Tok 91"
abbreviation TOKEN_RBRACKET :: TokenType where "TOKEN_RBRACKET \<equiv> Tok 92"
abbreviation TOKEN_SEMICOLON :: TokenType where "TOKEN_SEMICOLON \<equiv> Tok 93"
abbreviation TOKEN_COMMA :: TokenType where "TOKEN_COMMA \<equiv> Tok 94"
abbreviation TOKEN_DOT :: TokenType where "TOKEN_DOT \<equiv> Tok 95"
abbreviation TOKEN_COLON :: TokenType where "TOKEN_COLON \<equiv> Tok 96"
abbreviation TOKEN_SCOPE :: TokenType where "TOKEN_SCOPE \<equiv> Tok 97"
abbreviation TOKEN_ARROW :: TokenType where "TOKEN_ARROW \<equiv> Tok 98"
abbreviation TOKEN_QUESTION :: TokenType where "TOKEN_QUESTION \<equiv> Tok 99"
abbreviation TOKEN_ELLIPSIS :: TokenType where "TOKEN_ELLIPSIS \<equiv> Tok 100"
abbreviation TOKEN_HASH :: TokenType where "TOKEN_HASH \<equiv> Tok 101"
abbreviation TOKEN_NEWLINE :: TokenType where "TOKEN_NEWLINE \<equiv> Tok 102"
abbreviation TOKEN_EOF :: TokenType where "TOKEN_EOF \<equiv> Tok 103"
abbreviation TOKEN_ERROR :: TokenType where "TOKEN_ERROR \<equiv> Tok 104"
abbreviation TOKEN_UNKNOWN :: TokenType where "TOKEN_UNKNOWN \<equiv> Tok 105"

record Position =
  line :: int
  column :: int
  filename :: string

text \<open>
  The \<^verbatim>\<open>value\<close> union of a token is written by \<^verbatim>\<open>number\<close> only; every other token
  leaves it as \<^verbatim>\<open>make_token\<close> found it (\<open>Unset\<close>). A double is kept as the text handed to
  \<^verbatim>\<open>strtod\<close>, which determines it.
\<close>

datatype TokenValue = Unset | Int_value int | Float_value string

text \<open>\<^verbatim>\<open>Token.start\<close> points into the source buffer: here the offset from its first byte.\<close>

record Token =
  tok_type :: TokenType
  tok_start :: nat
  tok_length :: nat
  tok_pos :: Position
  tok_value :: TokenValue

section \<open>Character classes and number conversion of the C library\<close>

abbreviation NUL :: char where "NUL \<equiv> CHR 0x00"
abbreviation NEWLINE_CHAR :: char where "NEWLINE_CHAR \<equiv> CHR 0x0A"
abbreviation DQUOTE :: char where "DQUOTE \<equiv> CHR 0x22"
abbreviation SQUOTE :: char where "SQUOTE \<equiv> CHR 0x27"
abbreviation BACKSLASH :: char where "BACKSLASH \<equiv> CHR 0x5C"

definition isdigit :: "char \<Rightarrow> bool" where
  "isdigit c = (c \<in> set ''0123456789'')"

definition isxdigit :: "char \<Rightarrow> bool" where
  "isxdigit c = (c \<in> set ''0123456789abcdefABCDEF'')"

definition isalpha :: "char \<Rightarrow> bool" where
  "isalpha c = (c \<in> set ''abcdefghijklmnopqrstuvwxyzABCDEFGHIJKLMNOPQRSTUVWXYZ'')"

definition isalnum :: "char \<Rightarrow> bool" where
  "isalnum c = (isalpha c \<or> isdigit c)"

definition isspace :: "char \<Rightarrow> bool" where
  "isspace c = (c \<in> set [CHR '' '', CHR 0x09, CHR 0x0A, CHR 0x0B, CHR 0x0C, CHR 0x0D])"

primrec index_of :: "char \<Rightarrow> string \<Rightarrow> nat" where
  "index_of c [] = 0"
| "index_of c (d # ds) = (if c = d then 0 else Suc (index_of c ds))"

text \<open>The value \<^verbatim>\<open>strtoll\<close> gives a digit or letter; 36 for any other byte.\<close>

definition digit_value :: "char \<Rightarrow> nat" where
  "digit_value c =
     (if isdigit c then index_of c ''0123456789''
      else if c \<in> set ''abcdefghijklmnopqrstuvwxyz'' then 10 + index_of c ''abcdefghijklmnopqrstuvwxyz''
      else if c \<in> set ''ABCDEFGHIJKLMNOPQRSTUVWXYZ'' then 10 + index_of c ''ABCDEFGHIJKLMNOPQRSTUVWXYZ''
      else 36)"

primrec strtoll_digits :: "nat \<Rightarrow> string \<Rightarrow> int \<Rightarrow> int" where
  "strtoll_digits base [] acc = acc"
| "strtoll_digits base (c # cs) acc =
     (if digit_value c < base then strtoll_digits base cs (acc * int base + int (digit_value c))
      else acc)"

definition LLONG_MAX :: int where "LLONG_MAX = 9223372036854775807"
definition LLONG_MIN :: int where "LLONG_MIN = - 9223372036854775808"

text \<open>
  \<^verbatim>\<open>strtoll(s, &end, base)\<close> for the bases the program passes (2, 8, 10, 16): leading white
  space, an optional sign, for base 16 an optional \<^verbatim>\<open>0x\<close> in front of a hexadecimal digit,
  then the longest run of digits of the base; a value out of range is clamped.
\<close>

definition strtoll :: "string \<Rightarrow> nat \<Rightarrow> int" where
  "strtoll s base =
     (let s1 = dropWhile isspace s;
          neg = (s1 \<noteq> [] \<and> hd s1 = CHR ''-'');
          s2 = (if s1 \<noteq> [] \<and> (hd s1 = CHR ''-'' \<or> hd s1 = CHR ''+'') then tl s1 else s1);
          s3 = (if base = 16 \<and> (take 2 s2 = ''0x'' \<or> take 2 s2 = ''0X'')
                   \<and> (case drop 2 s2 of [] \<Rightarrow> False | c # _ \<Rightarrow> isxdigit c)
                then drop 2 s2 else s2);
          v = strtoll_digits base s3 0;
          r = (if neg then - v else v)
      in max LLONG_MIN (min LLONG_MAX r))"

section \<open>Lexer (lexer.h, lexer.c)\<close>

text \<open>
  The lexer state that the scanner reads or writes. \<^verbatim>\<open>current\<close> and \<^verbatim>\<open>start\<close> are
  pointers into the NUL-terminated source: here offsets into \<open>source\<close>, whose terminating
  NUL is the byte read at offset \<open>length source\<close>. The arena, the string pool, the clock
  and the fields no function of lexer.c touches are left out; the keyword table is the
  constant \<open>keyword_table\<close> below. \<^verbatim>\<open>line\<close> and \<^verbatim>\<open>column\<close> are C ints and \<^verbatim>\<open>tokens_processed\<close> a
  \<^verbatim>\<open>size_t\<close>; the model counts without wrap-around, which is exact for sources shorter
  than \<open>2^31\<close> bytes.
\<close>

record Lexer =
  source :: string
  current :: nat
  start :: nat
  pos :: Position
  has_error :: bool
  error_message :: string
  tokens_processed :: nat

definition keyword_table :: "(string \<times> TokenType) list" where
  "keyword_table =
    [(''int'', TOKEN_INT), (''float'', TOKEN_FLOAT_KW), (''string'', TOKEN_STRING_KW),
     (''bool'', TOKEN_BOOL_KW), (''char'', TOKEN_CHAR_KW), (''void'', TOKEN_VOID_KW),
     (''if'', TOKEN_IF), (''else'', TOKEN_ELSE), (''while'', TOKEN_WHILE),
     (''for'', TOKEN_FOR), (''do'', TOKEN_DO), (''switch'', TOKEN_SWITCH),
     (''case'', TOKEN_CASE), (''default'', TOKEN_DEFAULT), (''break'', TOKEN_BREAK),
     (''continue'', TOKEN_CONTINUE), (''return'', TOKEN_RETURN),
     (''function'', TOKEN_FUNCTION), (''var'', TOKEN_VAR), (''const'', TOKEN_CONST),
     (''class'', TOKEN_CLASS), (''struct'', TOKEN_STRUCT), (''enum'', TOKEN_ENUM),
     (''interface'', TOKEN_INTERFACE), (''implements'', TOKEN_IMPLEMENTS),
     (''extends'', TOKEN_EXTENDS), (''public'', TOKEN_PUBLIC), (''private'', TOKEN_PRIVATE),
     (''protected'', TOKEN_PROTECTED), (''static'', TOKEN_STATIC), (''final'', TOKEN_FINAL),
     (''abstract'', TOKEN_ABSTRACT), (''virtual'', TOKEN_VIRTUAL),
     (''override'', TOKEN_OVERRIDE), (''try'', TOKEN_TRY), (''catch'', TOKEN_CATCH),
     (''finally'', TOKEN_FINALLY), (''throw'', TOKEN_THROW), (''import'', TOKEN_IMPORT),
     (''export'', TOKEN_EXPORT), (''module'', TOKEN_MODULE), (''namespace'', TOKEN_NAMESPACE),
     (''true'', TOKEN_TRUE), (''false'', TOKEN_FALSE), (''null'', TOKEN_NULL),
     (''undefined'', TOKEN_UNDEFINED)]"

definition lexer_create :: "string \<Rightarrow> string \<Rightarrow> Lexer" where
  "lexer_create src fname =
     \<lparr>source = src, current = 0, start = 0,
      pos = \<lparr>line = 1, column = 1, filename = fname\<rparr>,
      has_error = False, error_message = [], tokens_processed = 0\<rparr>"

text \<open>The byte at an offset of the source buffer; the terminator at and after its end.\<close>

definition byte_at :: "string \<Rightarrow> nat \<Rightarrow> char" where
  "byte_at s i = (if i < length s then s ! i else NUL)"

definition peek :: "Lexer \<Rightarrow> char" where
  "peek l = byte_at (source l) (current l)"

definition is_at_end :: "Lexer \<Rightarrow> bool" where
  "is_at_end l = (peek l = NUL)"

definition advance :: "Lexer \<Rightarrow> char \<times> Lexer" where
  "advance l =
     (if is_at_end l then (NUL, l)
      else (peek l,
            l\<lparr>current := current l + 1,
              pos := (if peek l = NEWLINE_CHAR
                      then (pos l)\<lparr>line := line (pos l) + 1, column := 1\<rparr>
                      else (pos l)\<lparr>column := column (pos l) + 1\<rparr>)\<rparr>))"

definition peek_next :: "Lexer \<Rightarrow> char" where
  "peek_next l = (if is_at_end l then NUL else byte_at (source l) (current l + 1))"

definition match :: "Lexer \<Rightarrow> char \<Rightarrow> bool \<times> Lexer" where
  "match l expected =
     (if is_at_end l \<or> peek l \<noteq> expected then (False, l)
      else (True, l\<lparr>current := current l + 1,
                    pos := (pos l)\<lparr>column := column (pos l) + 1\<rparr>\<rparr>))"

text \<open>
  The loops of the form \<^verbatim>\<open>while (P(peek(lexer))) advance(lexer);\<close>. Every \<open>P\<close> the program
  uses there is false on NUL or is tested together with \<^verbatim>\<open>!is_at_end\<close>, which is the
  second conjunct.
\<close>

function advance_while :: "(char \<Rightarrow> bool) \<Rightarrow> Lexer \<Rightarrow> Lexer" where
  "advance_while P l =
     (if P (peek l) \<and> \<not> is_at_end l then advance_while P (snd (advance l)) else l)"
  by pat_completeness auto
termination
  by (relation "measure (\<lambda>(P, l). length (source l) - current l)")
     (auto simp: advance_def is_at_end_def peek_def byte_at_def split: if_splits)

text \<open>The body of a block comment, after its opening \<^verbatim>\<open>/*\<close>.\<close>

function skip_block_comment :: "Lexer \<Rightarrow> Lexer" where
  "skip_block_comment l =
     (if \<not> is_at_end l then
        (if peek l = CHR ''*'' \<and> peek_next l = CHR ''/''
         then snd (advance (snd (advance l)))
         else skip_block_comment (snd (advance l)))
      else l)"
  by pat_completeness auto
termination
  by (relation "measure (\<lambda>l. length (source l) - current l)")
     (auto simp: advance_def is_at_end_def peek_def byte_at_def split: if_splits)

declare advance_while.simps [simp del]
declare skip_block_comment.simps [simp del]

lemma advance_source [simp]: "source (snd (advance l)) = source l"
  by (simp add: advance_def)

lemma advance_current_le: "current l \<le> current (snd (advance l))"
  by (simp add: advance_def)

lemma advance_current_not_end:
  "\<not> is_at_end l \<Longrightarrow> current (snd (advance l)) = Suc (current l)"
  by (simp add: advance_def)

lemma not_end_lt_length: "\<not> is_at_end l \<Longrightarrow> current l < length (source l)"
  by (simp add: is_at_end_def peek_def byte_at_def split: if_splits)

lemma advance_while_step:
  "P (peek l) \<and> \<not> is_at_end l \<Longrightarrow> advance_while P l = advance_while P (snd (advance l))"
  by (subst advance_while.simps) simp

lemma advance_while_stop:
  "\<not> (P (peek l) \<and> \<not> is_at_end l) \<Longrightarrow> advance_while P l = l"
  by (subst advance_while.simps) (rule if_not_P)

lemma advance_while_source [simp]: "source (advance_while P l) = source l"
proof (induction P l rule: advance_while.induct)
  case (1 P l)
  then show ?case
    by (cases "P (peek l) \<and> \<not> is_at_end l") (simp_all add: advance_while_step advance_while_stop)
qed

lemma advance_while_current_le: "current l \<le> current (advance_while P l)"
proof (induction P l rule: advance_while.induct)
  case (1 P l)
  show ?case
  proof (cases "P (peek l) \<and> \<not> is_at_end l")
    case True
    then have "current (snd (advance l)) \<le> current (advance_while P l)"
      using "1.IH" by (simp add: advance_while_step)
    then show ?thesis using advance_current_le [of l] by linarith
  next
    case False
    then show ?thesis by (simp add: advance_while_stop)
  qed
qed

lemma skip_block_comment_step:
  "\<not> is_at_end l \<Longrightarrow> \<not> (peek l = CHR ''*'' \<and> peek_next l = CHR ''/'') \<Longrightarrow>
   skip_block_comment l = skip_block_comment (snd (advance l))"
  by (subst skip_block_comment.simps) auto

lemma skip_block_comment_close:
  "\<not> is_at_end l \<Longrightarrow> peek l = CHR ''*'' \<and> peek_next l = CHR ''/'' \<Longrightarrow>
   skip_block_comment l = snd (advance (snd (advance l)))"
  by (subst skip_block_comment.simps) simp

lemma skip_block_comment_end: "is_at_end l \<Longrightarrow> skip_block_comment l = l"
  by (subst skip_block_comment.simps) simp

lemma skip_block_comment_source [simp]: "source (skip_block_comment l) = source l"
proof (induction l rule: skip_block_comment.induct)
  case (1 l)
  show ?case
  proof (cases "is_at_end l")
    case True
    then show ?thesis by (simp add: skip_block_comment_end)
  next
    case False
    then show ?thesis
      using "1.IH"
      by (cases "peek l = CHR ''*'' \<and> peek_next l = CHR ''/''")
         (simp_all add: skip_block_comment_step skip_block_comment_close)
  qed
qed

lemma skip_block_comment_current_le: "current l \<le> current (skip_block_comment l)"
proof (induction l rule: skip_block_comment.induct)
  case (1 l)
  show ?case
  proof (cases "is_at_end l")
    case True
    then show ?thesis by (simp add: skip_block_comment_end)
  next
    case False
    show ?thesis
    proof (cases "peek l = CHR ''*'' \<and> peek_next l = CHR ''/''")
      case True
      then show ?thesis
        using False advance_current_le [of l] advance_current_le [of "snd (advance l)"]
        by (simp add: skip_block_comment_close)
    next
      case c: False
      then have "current (snd (advance l)) \<le> current (skip_block_comment l)"
        using False "1.IH" by (simp add: skip_block_comment_step)
      then show ?thesis using advance_current_le [of l] by linarith
    qed
  qed
qed

function skip_whitespace :: "Lexer \<Rightarrow> Lexer" where
  "skip_whitespace l =
     (if \<not> is_at_end l then
        (let c = peek l in
         if c = CHR '' '' \<or> c = CHR 0x0D \<or> c = CHR 0x09 then
           skip_whitespace (snd (advance l))
         else if c = CHR ''/'' \<and> peek_next l = CHR ''/'' then
           skip_whitespace (advance_while (\<lambda>c. c \<noteq> NEWLINE_CHAR) l)
         else if c = CHR ''/'' \<and> peek_next l = CHR ''*'' then
           skip_whitespace (skip_block_comment (snd (advance (snd (advance l)))))
         else l)
      else l)"
  by pat_completeness auto
termination
proof (relation "measure (\<lambda>l. length (source l) - current l)")
  show "wf (measure (\<lambda>l. length (source l) - current l))" by simp
next
  fix l c
  assume "\<not> is_at_end l"
  then show "(snd (advance l), l) \<in> measure (\<lambda>l. length (source l) - current l)"
    using not_end_lt_length [of l] by (simp add: advance_current_not_end)
next
  fix l c
  assume a: "\<not> is_at_end l" "c = peek l" "c = CHR ''/'' \<and> peek_next l = CHR ''/''"
  let ?l1 = "snd (advance l)"
  have "peek l \<noteq> NEWLINE_CHAR \<and> \<not> is_at_end l"
    using a by auto
  then have "advance_while (\<lambda>c. c \<noteq> NEWLINE_CHAR) l = advance_while (\<lambda>c. c \<noteq> NEWLINE_CHAR) ?l1"
    by (rule advance_while_step)
  then have "current ?l1 \<le> current (advance_while (\<lambda>c. c \<noteq> NEWLINE_CHAR) l)"
    using advance_while_current_le [of ?l1] by simp
  then show "(advance_while (\<lambda>c. c \<noteq> NEWLINE_CHAR) l, l)
               \<in> measure (\<lambda>l. length (source l) - current l)"
    using a not_end_lt_length [of l] by (simp add: advance_current_not_end)
next
  fix l c
  assume a: "\<not> is_at_end l"
  let ?l1 = "snd (advance l)"
  let ?l2 = "snd (advance ?l1)"
  have "current ?l1 \<le> current (skip_block_comment ?l2)"
    using skip_block_comment_current_le [of ?l2] advance_current_le [of ?l1] by linarith
  then show "(skip_block_comment ?l2, l) \<in> measure (\<lambda>l. length (source l) - current l)"
    using a not_end_lt_length [of l] by (simp add: advance_current_not_end)
qed

declare skip_whitespace.simps [simp del]

text \<open>The C string that starts at an offset of the source buffer.\<close>

definition c_string_at :: "string \<Rightarrow> nat \<Rightarrow> string" where
  "c_string_at s i = takeWhile (\<lambda>c. c \<noteq> NUL) (drop i s)"

definition make_token :: "Lexer \<Rightarrow> TokenType \<Rightarrow> Token" where
  "make_token l ty =
     \<lparr>tok_type = ty, tok_start = start l, tok_length = current l - start l,
      tok_pos = (pos l)\<lparr>column := column (pos l) - int (current l - start l)\<rparr>,
      tok_value = Unset\<rparr>"

definition error_token :: "Lexer \<Rightarrow> string \<Rightarrow> Token \<times> Lexer" where
  "error_token l message =
     (\<lparr>tok_type = TOKEN_ERROR, tok_start = start l, tok_length = current l - start l,
       tok_pos = pos l, tok_value = Unset\<rparr>,
      l\<lparr>has_error := True, error_message := take 255 message\<rparr>)"

text \<open>
  \<^verbatim>\<open>number\<close> runs after \<^verbatim>\<open>lexer_next_token\<close> has consumed the first digit, so \<^verbatim>\<open>peek\<close>
  reads the second byte of the literal.
\<close>

text \<open>
  The scanning part of \<^verbatim>\<open>number\<close>: it returns \<^verbatim>\<open>is_float\<close>, \<^verbatim>\<open>base\<close> and the lexer behind the
  literal.
\<close>

definition number_scan :: "Lexer \<Rightarrow> bool \<times> nat \<times> Lexer" where
  "number_scan l =
        (if peek l = CHR ''0'' \<and> \<not> is_at_end l then
           (let next = peek_next l in
            if next = CHR ''x'' \<or> next = CHR ''X'' then
              (False, 16, advance_while isxdigit (snd (advance (snd (advance l)))))
            else if next = CHR ''b'' \<or> next = CHR ''B'' then
              (False, 2, advance_while (\<lambda>c. c = CHR ''0'' \<or> c = CHR ''1'')
                           (snd (advance (snd (advance l)))))
            else if next = CHR ''o'' \<or> next = CHR ''O'' then
              (False, 8, advance_while (\<lambda>c. c \<in> set ''01234567'')
                           (snd (advance (snd (advance l)))))
            else
              (let l2 = advance_while isdigit l in
               if peek l2 = CHR ''.'' \<and> isdigit (peek_next l2)
               then (True, 10, advance_while isdigit (snd (advance l2)))
               else (False, 10, l2)))
         else
           (let l2 = advance_while isdigit l;
                (f1, l3) = (if peek l2 = CHR ''.'' \<and> isdigit (peek_next l2)
                            then (True, advance_while isdigit (snd (advance l2)))
                            else (False, l2))
            in if (peek l3 = CHR ''e'' \<or> peek l3 = CHR ''E'') \<and>
                  (isdigit (peek_next l3) \<or> peek_next l3 = CHR ''+'' \<or> peek_next l3 = CHR ''-'')
               then
                 (let l4 = snd (advance l3);
                      l5 = (if peek l4 = CHR ''+'' \<or> peek l4 = CHR ''-''
                            then snd (advance l4) else l4)
                  in (True, 10, advance_while isdigit l5))
               else (f1, 10, l3)))"

definition number :: "Lexer \<Rightarrow> Token \<times> Lexer" where
  "number l =
     (let (is_float, base, l1) = number_scan l;
          token = make_token l1 (if is_float then TOKEN_FLOAT else TOKEN_INTEGER)
      in (token\<lparr>tok_value :=
                  (if is_float then Float_value (c_string_at (source l1) (start l1))
                   else Int_value (strtoll (c_string_at (source l1) (start l1)) base))\<rparr>,
          l1))"

text \<open>\<^verbatim>\<open>for (int i = 0; i < 4 && isxdigit(peek(lexer)); i++) advance(lexer);\<close>\<close>

primrec advance_upto :: "nat \<Rightarrow> (char \<Rightarrow> bool) \<Rightarrow> Lexer \<Rightarrow> Lexer" where
  "advance_upto 0 P l = l"
| "advance_upto (Suc n) P l = (if P (peek l) then advance_upto n P (snd (advance l)) else l)"

text \<open>One turn of the loop of \<^verbatim>\<open>string\<close>, entered with a byte that is neither \<^verbatim>\<open>"\<close> nor NUL.\<close>

definition string_step :: "Lexer \<Rightarrow> Lexer" where
  "string_step l =
     (if peek l = BACKSLASH then
        (let l1 = snd (advance l) in
         if \<not> is_at_end l1 then
           (let escaped = peek l1 in
            if escaped \<in> set [CHR ''n'', CHR ''t'', CHR ''r'', BACKSLASH, DQUOTE, SQUOTE, CHR ''0'']
            then snd (advance l1)
            else if escaped = CHR ''x'' then
              (let l2 = snd (advance l1) in
               if isxdigit (peek l2) then
                 (let l3 = snd (advance l2) in
                  if isxdigit (peek l3) then snd (advance l3) else l3)
               else l2)
            else if escaped = CHR ''u'' then advance_upto 4 isxdigit (snd (advance l1))
            else snd (advance l1))
         else l1)
      else
        l\<lparr>pos := (if peek l = NEWLINE_CHAR
                  then (pos l)\<lparr>line := line (pos l) + 1, column := 1\<rparr>
                  else (pos l)\<lparr>column := column (pos l) + 1\<rparr>),
          current := current l + 1\<rparr>)"

lemma advance_upto_source [simp]: "source (advance_upto n P l) = source l"
  by (induction n arbitrary: l) simp_all

lemma advance_upto_current_le: "current l \<le> current (advance_upto n P l)"
proof (induction n arbitrary: l)
  case 0
  then show ?case by simp
next
  case (Suc n)
  show ?case
    using Suc [of "snd (advance l)"] advance_current_le [of l] by simp
qed

lemma string_step_source [simp]: "source (string_step l) = source l"
  by (simp add: string_step_def Let_def)

lemma string_step_current_lt:
  assumes "\<not> is_at_end l"
  shows "current l < current (string_step l)"
proof -
  let ?l1 = "snd (advance l)"
  have a: "current ?l1 = Suc (current l)"
    using assms by (rule advance_current_not_end)
  have b: "current ?l1 \<le> current (snd (advance ?l1))"
    by (rule advance_current_le)
  have c: "current (snd (advance ?l1)) \<le> current (snd (advance (snd (advance ?l1))))"
    by (rule advance_current_le)
  have d: "current (snd (advance (snd (advance ?l1))))
             \<le> current (snd (advance (snd (advance (snd (advance ?l1))))))"
    by (rule advance_current_le)
  have e: "current (snd (advance ?l1)) \<le> current (advance_upto 4 isxdigit (snd (advance ?l1)))"
    by (rule advance_upto_current_le)
  show ?thesis
    using a b c d e by (simp add: string_step_def Let_def)
qed

function string_loop :: "Lexer \<Rightarrow> Lexer" where
  "string_loop l =
     (if peek l \<noteq> DQUOTE \<and> \<not> is_at_end l then string_loop (string_step l) else l)"
  by pat_completeness auto
termination
proof (relation "measure (\<lambda>l. length (source l) - current l)")
  show "wf (measure (\<lambda>l. length (source l) - current l))" by simp
next
  fix l
  assume "peek l \<noteq> DQUOTE \<and> \<not> is_at_end l"
  then have "\<not> is_at_end l" by simp
  then show "(string_step l, l) \<in> measure (\<lambda>l. length (source l) - current l)"
    using string_step_current_lt [of l] not_end_lt_length [of l] by simp
qed

declare string_loop.simps [simp del]

text \<open>\<^verbatim>\<open>string\<close>, entered after the opening quote.\<close>

definition string_token :: "Lexer \<Rightarrow> Token \<times> Lexer" where
  "string_token l =
     (let l1 = string_loop l in
      if is_at_end l1 then error_token l1 ''Unterminated string''
      else (let l2 = snd (advance l1) in (make_token l2 TOKEN_STRING, l2)))"

text \<open>
  \<^verbatim>\<open>check_keyword(lexer, text, length)\<close>: the first entry of the table whose word has that
  length and equals the first \<open>len\<close> bytes at \<open>text\<close>.
\<close>

primrec check_keyword_in :: "(string \<times> TokenType) list \<Rightarrow> string \<Rightarrow> nat \<Rightarrow> TokenType" where
  "check_keyword_in [] text len = TOKEN_IDENTIFIER"
| "check_keyword_in (k # ks) text len =
     (if length (fst k) = len \<and> take len text = fst k then snd k
      else check_keyword_in ks text len)"

definition check_keyword :: "string \<Rightarrow> nat \<Rightarrow> TokenType" where
  "check_keyword text len = check_keyword_in keyword_table text len"

definition identifier_token :: "Lexer \<Rightarrow> Token \<times> Lexer" where
  "identifier_token l =
     (let l1 = advance_while (\<lambda>c. isalnum c \<or> c = CHR ''_'') l;
          ty = check_keyword (c_string_at (source l1) (start l1)) (current l1 - start l1)
      in (make_token l1 ty, l1))"

text \<open>\<^verbatim>\<open>return make_token(lexer, match(lexer, c) ? a : b);\<close>\<close>

definition match_token :: "Lexer \<Rightarrow> char \<Rightarrow> TokenType \<Rightarrow> TokenType \<Rightarrow> Token \<times> Lexer" where
  "match_token l c a b =
     (let (m, l1) = match l c in (make_token l1 (if m then a else b), l1))"

text \<open>The character literal case of the switch, entered after the quote that opened it.\<close>

definition char_literal :: "Lexer \<Rightarrow> Token \<times> Lexer" where
  "char_literal l =
     (let l1 = snd (advance l);
          l2 = (if peek l1 = BACKSLASH then snd (advance (snd (advance l1)))
                else if peek l1 \<noteq> SQUOTE then snd (advance l1)
                else l1);
          (m, l3) = match l2 SQUOTE
      in if \<not> m then error_token l3 ''Unterminated character literal''
         else (make_token l3 TOKEN_CHAR, l3))"

text \<open>The \<^verbatim>\<open>switch (c)\<close> of \<^verbatim>\<open>lexer_next_token\<close> with the fall-through to its last line.\<close>

definition token_switch :: "char \<Rightarrow> Lexer \<Rightarrow> Token \<times> Lexer" where
  "token_switch c l =
     (if c = CHR ''('' then (make_token l TOKEN_LPAREN, l)
      else if c = CHR '')'' then (make_token l TOKEN_RPAREN, l)
      else if c = CHR ''{'' then (make_token l TOKEN_LBRACE, l)
      else if c = CHR ''}'' then (make_token l TOKEN_RBRACE, l)
      else if c = CHR ''['' then (make_token l TOKEN_LBRACKET, l)
      else if c = CHR '']'' then (make_token l TOKEN_RBRACKET, l)
      else if c = CHR '';'' then (make_token l TOKEN_SEMICOLON, l)
      else if c = CHR '','' then (make_token l TOKEN_COMMA, l)
      else if c = CHR ''.'' then
        (let (m1, l1) = match l (CHR ''.'') in
         if m1 then
           (let (m2, l2) = match l1 (CHR ''.'') in
            if m2 then (make_token l2 TOKEN_ELLIPSIS, l2)
            else error_token l2 (''Invalid token '' @ [SQUOTE] @ ''..'' @ [SQUOTE]))
         else (make_token l1 TOKEN_DOT, l1))
      else if c = CHR '':'' then match_token l (CHR '':'') TOKEN_SCOPE TOKEN_COLON
      else if c = CHR ''?'' then (make_token l TOKEN_QUESTION, l)
      else if c = CHR ''~'' then (make_token l TOKEN_TILDE, l)
      else if c = CHR ''^'' then match_token l (CHR ''='') TOKEN_XOR_ASSIGN TOKEN_XOR
      else if c = CHR ''+'' then
        (let (m1, l1) = match l (CHR ''+'') in
         if m1 then (make_token l1 TOKEN_INCREMENT, l1)
         else match_token l1 (CHR ''='') TOKEN_PLUS_ASSIGN TOKEN_PLUS)
      else if c = CHR ''-'' then
        (let (m1, l1) = match l (CHR ''-'') in
         if m1 then (make_token l1 TOKEN_DECREMENT, l1)
         else (let (m2, l2) = match l1 (CHR ''='') in
               if m2 then (make_token l2 TOKEN_MINUS_ASSIGN, l2)
               else match_token l2 (CHR ''>'') TOKEN_ARROW TOKEN_MINUS))
      else if c = CHR ''*'' then
        (let (m1, l1) = match l (CHR ''='') in
         if m1 then (make_token l1 TOKEN_MULTIPLY_ASSIGN, l1)
         else (let (m2, l2) = match l1 (CHR ''*'') in
               if m2 then match_token l2 (CHR ''='') TOKEN_POWER_ASSIGN TOKEN_POWER
               else (make_token l2 TOKEN_MULTIPLY, l2)))
      else if c = CHR ''/'' then match_token l (CHR ''='') TOKEN_DIVIDE_ASSIGN TOKEN_DIVIDE
      else if c = CHR ''%'' then match_token l (CHR ''='') TOKEN_MODULO_ASSIGN TOKEN_MODULO
      else if c = NEWLINE_CHAR then (make_token l TOKEN_NEWLINE, l)
      else if c = DQUOTE then string_token l
      else if c = SQUOTE then char_literal l
      else if c = CHR ''!'' then match_token l (CHR ''='') TOKEN_NOT_EQUAL TOKEN_NOT
      else if c = CHR ''='' then
        (let (m1, l1) = match l (CHR ''='') in
         if m1 then match_token l1 (CHR ''='') TOKEN_STRICT_EQUAL TOKEN_EQUAL
         else (make_token l1 TOKEN_ASSIGN, l1))
      else if c = CHR ''<'' then
        (let (m1, l1) = match l (CHR ''<'') in
         if m1 then match_token l1 (CHR ''='') TOKEN_LSHIFT_ASSIGN TOKEN_LSHIFT
         else match_token l1 (CHR ''='') TOKEN_LESS_EQUAL TOKEN_LESS)
      else if c = CHR ''>'' then
        (let (m1, l1) = match l (CHR ''>'') in
         if m1 then match_token l1 (CHR ''='') TOKEN_RSHIFT_ASSIGN TOKEN_RSHIFT
         else match_token l1 (CHR ''='') TOKEN_GREATER_EQUAL TOKEN_GREATER)
      else if c = CHR ''&'' then
        (let (m1, l1) = match l (CHR ''&'') in
         if m1 then (make_token l1 TOKEN_AND, l1)
         else match_token l1 (CHR ''='') TOKEN_AND_ASSIGN TOKEN_BITWISE_AND)
      else if c = CHR ''|'' then
        (let (m1, l1) = match l (CHR ''|'') in
         if m1 then (make_token l1 TOKEN_OR, l1)
         else match_token l1 (CHR ''='') TOKEN_OR_ASSIGN TOKEN_BITWISE_OR)
      else if c = CHR ''#'' then (make_token l TOKEN_HASH, l)
      else error_token l ''Unexpected character'')"

definition lexer_next_token :: "Lexer \<Rightarrow> Token \<times> Lexer" where
  "lexer_next_token l0 =
     (let l1 = skip_whitespace l0;
          l2 = l1\<lparr>start := current l1, tokens_processed := tokens_processed l1 + 1\<rparr>
      in if is_at_end l2 then (make_token l2 TOKEN_EOF, l2)
         else (let (c, l3) = advance l2 in
               if isalpha c \<or> c = CHR ''_'' then identifier_token l3
               else if isdigit c then number l3
               else token_switch c l3))"

definition lexer_has_error :: "Lexer \<Rightarrow> bool" where
  "lexer_has_error l = has_error l"

definition lexer_get_error :: "Lexer \<Rightarrow> string" where
  "lexer_get_error l = error_message l"

text \<open>
  \<^verbatim>\<open>lexer_peek_token\<close> on a lexer that exists; the guard for a null \<^verbatim>\<open>Lexer*\<close> has no
  counterpart, the model passing the lexer by value.
\<close>

definition lexer_peek_token :: "Lexer \<Rightarrow> Token \<times> Lexer" where
  "lexer_peek_token l =
     (let saved_current = current l;
          saved_start = start l;
          saved_pos = pos l;
          saved_tokens = tokens_processed l;
          saved_error = has_error l;
          (token, l1) = lexer_next_token l
      in (token, l1\<lparr>current := saved_current, start := saved_start, pos := saved_pos,
                    tokens_processed := saved_tokens, has_error := saved_error\<rparr>))"

section \<open>Progress of the lexer\<close>

text \<open>
  \<open>forward l l'\<close>: the lexer \<open>l'\<close> reads the same buffer as \<open>l\<close> and its cursor is not
  behind the cursor of \<open>l\<close>.
\<close>

definition forward :: "Lexer \<Rightarrow> Lexer \<Rightarrow> bool" where
  "forward l l' = (source l' = source l \<and> current l \<le> current l')"

lemma forward_refl: "forward l l"
  by (simp add: forward_def)

lemma forward_trans: "forward a b \<Longrightarrow> forward b c \<Longrightarrow> forward a c"
  by (simp add: forward_def)

lemma forward_advance: "forward a l \<Longrightarrow> forward a (snd (advance l))"
  using advance_current_le [of l] by (simp add: forward_def)

lemma forward_advance_while: "forward a l \<Longrightarrow> forward a (advance_while P l)"
  using advance_while_current_le [of l P] by (simp add: forward_def)

lemma forward_advance_upto: "forward a l \<Longrightarrow> forward a (advance_upto n P l)"
  using advance_upto_current_le [of l n P] by (simp add: forward_def)

lemma forward_skip_block_comment: "forward a l \<Longrightarrow> forward a (skip_block_comment l)"
  using skip_block_comment_current_le [of l] by (simp add: forward_def)

lemma forward_match: "forward a l \<Longrightarrow> forward a (snd (match l c))"
  by (simp add: forward_def match_def)

lemma forward_error_token: "forward a l \<Longrightarrow> forward a (snd (error_token l m))"
  by (simp add: forward_def error_token_def)

lemma forward_match_token: "forward a l \<Longrightarrow> forward a (snd (match_token l c x y))"
  by (simp add: match_token_def case_prod_beta forward_match)

lemma forward_string_step: "\<not> is_at_end l \<Longrightarrow> forward a l \<Longrightarrow> forward a (string_step l)"
  using string_step_current_lt [of l] by (simp add: forward_def)

lemma forward_string_loop: "forward a l \<Longrightarrow> forward a (string_loop l)"
proof (induction l rule: string_loop.induct)
  case (1 l)
  show ?case
  proof (cases "peek l \<noteq> DQUOTE \<and> \<not> is_at_end l")
    case True
    then have "string_loop l = string_loop (string_step l)"
      by (subst string_loop.simps) simp
    then show ?thesis
      using True 1 forward_string_step [of l a] by simp
  next
    case False
    then have "string_loop l = l"
      by (subst string_loop.simps) auto
    then show ?thesis using 1 by simp
  qed
qed

lemma forward_string_token: "forward a l \<Longrightarrow> forward a (snd (string_token l))"
  by (simp add: string_token_def Let_def forward_string_loop forward_error_token forward_advance)

lemma forward_char_literal: "forward a l \<Longrightarrow> forward a (snd (char_literal l))"
  by (simp add: char_literal_def Let_def case_prod_beta forward_match forward_error_token forward_advance)

lemma forward_identifier_token: "forward a l \<Longrightarrow> forward a (snd (identifier_token l))"
  by (simp add: identifier_token_def Let_def forward_advance_while)

lemma forward_number: "forward a l \<Longrightarrow> forward a (snd (number l))"
  by (simp add: number_def number_scan_def Let_def case_prod_beta forward_advance_while
      forward_advance)

lemma forward_token_switch: "forward a l \<Longrightarrow> forward a (snd (token_switch c l))"
  by (simp add: token_switch_def Let_def case_prod_beta forward_match forward_match_token
      forward_error_token forward_string_token forward_char_literal)

lemma skip_whitespace_end: "is_at_end l \<Longrightarrow> skip_whitespace l = l"
  by (subst skip_whitespace.simps) simp

lemma forward_skip_whitespace: "forward a l \<Longrightarrow> forward a (skip_whitespace l)"
proof (induction l rule: skip_whitespace.induct)
  case (1 l)
  note IH = "1.IH" and fw = "1.prems"
  show ?case
  proof (cases "is_at_end l")
    case True
    then show ?thesis using fw by (simp add: skip_whitespace_end)
  next
    case ne: False
    consider (ws) "peek l = CHR '' '' \<or> peek l = CHR 0x0D \<or> peek l = CHR 0x09"
      | (lc) "\<not> (peek l = CHR '' '' \<or> peek l = CHR 0x0D \<or> peek l = CHR 0x09)"
             "peek l = CHR ''/'' \<and> peek_next l = CHR ''/''"
      | (bc) "\<not> (peek l = CHR '' '' \<or> peek l = CHR 0x0D \<or> peek l = CHR 0x09)"
             "\<not> (peek l = CHR ''/'' \<and> peek_next l = CHR ''/'')"
             "peek l = CHR ''/'' \<and> peek_next l = CHR ''*''"
      | (other) "\<not> (peek l = CHR '' '' \<or> peek l = CHR 0x0D \<or> peek l = CHR 0x09)"
             "\<not> (peek l = CHR ''/'' \<and> peek_next l = CHR ''/'')"
             "\<not> (peek l = CHR ''/'' \<and> peek_next l = CHR ''*'')"
      by blast
    then show ?thesis
    proof cases
      case ws
      then have "skip_whitespace l = skip_whitespace (snd (advance l))"
        using ne by (subst skip_whitespace.simps) (simp add: Let_def)
      then show ?thesis
        using IH(1) [OF ne refl ws forward_advance [OF fw]] by simp
    next
      case lc
      then have "skip_whitespace l = skip_whitespace (advance_while (\<lambda>c. c \<noteq> NEWLINE_CHAR) l)"
        using ne by (subst skip_whitespace.simps) (simp add: Let_def)
      then show ?thesis
        using IH(2) [OF ne refl lc forward_advance_while [OF fw]] by simp
    next
      case bc
      then have "skip_whitespace l
                   = skip_whitespace (skip_block_comment (snd (advance (snd (advance l)))))"
        using ne by (subst skip_whitespace.simps) (simp add: Let_def)
      then show ?thesis
        using IH(3) [OF ne refl bc
                forward_skip_block_comment [OF forward_advance [OF forward_advance [OF fw]]]]
        by simp
    next
      case other
      then have "skip_whitespace l = l"
        using ne by (subst skip_whitespace.simps) (auto simp: Let_def)
      then show ?thesis using fw by simp
    qed
  qed
qed

lemma check_keyword_in_cases:
  "check_keyword_in ks text len = TOKEN_IDENTIFIER
   \<or> (\<exists>k \<in> set ks. check_keyword_in ks text len = snd k)"
  by (induction ks) auto

lemma keyword_table_types:
  "\<forall>k \<in> set keyword_table. snd k \<noteq> TOKEN_EOF \<and> snd k \<noteq> TOKEN_ERROR \<and> snd k \<noteq> TOKEN_NEWLINE"
  by (simp add: keyword_table_def)

lemma check_keyword_not_special:
  "check_keyword text len \<noteq> TOKEN_EOF \<and> check_keyword text len \<noteq> TOKEN_ERROR
   \<and> check_keyword text len \<noteq> TOKEN_NEWLINE"
  using check_keyword_in_cases [of keyword_table "text" len] keyword_table_types
  unfolding check_keyword_def by fastforce

lemma identifier_token_not_eof: "tok_type (fst (identifier_token l)) \<noteq> TOKEN_EOF"
  using check_keyword_not_special by (simp add: identifier_token_def Let_def make_token_def)

lemma number_not_eof: "tok_type (fst (number l)) \<noteq> TOKEN_EOF"
  by (simp add: number_def Let_def case_prod_beta make_token_def)

lemma match_token_type:
  "tok_type (fst (match_token l c x y)) = (if fst (match l c) then x else y)"
  by (simp add: match_token_def case_prod_beta make_token_def)

lemma error_token_type [simp]: "tok_type (fst (error_token l m)) = TOKEN_ERROR"
  by (simp add: error_token_def)

lemma string_token_not_eof: "tok_type (fst (string_token l)) \<noteq> TOKEN_EOF"
  by (simp add: string_token_def Let_def make_token_def)

lemma char_literal_not_eof: "tok_type (fst (char_literal l)) \<noteq> TOKEN_EOF"
  by (simp add: char_literal_def Let_def case_prod_beta make_token_def)

lemma token_switch_not_eof: "tok_type (fst (token_switch c l)) \<noteq> TOKEN_EOF"
  by (simp add: token_switch_def Let_def case_prod_beta make_token_def match_token_type
      string_token_not_eof char_literal_not_eof)

lemma lexer_next_token_eof_iff:
  "tok_type (fst (lexer_next_token l)) = TOKEN_EOF \<longleftrightarrow> is_at_end (skip_whitespace l)"
  using identifier_token_not_eof number_not_eof token_switch_not_eof
  by (simp add: lexer_next_token_def Let_def case_prod_beta make_token_def
      is_at_end_def peek_def)

lemma forward_lexer_next_token: "forward l (snd (lexer_next_token l))"
proof -
  let ?l1 = "skip_whitespace l"
  let ?l2 = "?l1\<lparr>start := current ?l1, tokens_processed := tokens_processed ?l1 + 1\<rparr>"
  have f2: "forward l ?l2"
    using forward_skip_whitespace [OF forward_refl, of l] by (simp add: forward_def)
  have f3: "forward l (snd (advance ?l2))"
    using f2 by (rule forward_advance)
  show ?thesis
    using f2 f3
    by (simp add: lexer_next_token_def Let_def case_prod_beta forward_identifier_token
        forward_number forward_token_switch)
qed

lemma lexer_next_token_progress:
  assumes "tok_type (fst (lexer_next_token l)) \<noteq> TOKEN_EOF"
  shows "current l < current (snd (lexer_next_token l))"
proof -
  let ?l1 = "skip_whitespace l"
  let ?l2 = "?l1\<lparr>start := current ?l1, tokens_processed := tokens_processed ?l1 + 1\<rparr>"
  let ?l3 = "snd (advance ?l2)"
  have ne: "\<not> is_at_end ?l2"
    using assms by (simp add: lexer_next_token_eof_iff is_at_end_def peek_def)
  have f2: "forward l ?l2"
    using forward_skip_whitespace [OF forward_refl, of l] by (simp add: forward_def)
  have c3: "current ?l3 = Suc (current ?l2)"
    using ne by (rule advance_current_not_end)
  have "forward ?l3 (snd (lexer_next_token l))"
    using ne
    by (simp add: lexer_next_token_def Let_def case_prod_beta forward_identifier_token
        forward_number forward_token_switch forward_refl)
  then show ?thesis
    using f2 c3 by (simp add: forward_def)
qed

lemma lexer_next_token_eof_state:
  assumes "tok_type (fst (lexer_next_token l)) = TOKEN_EOF"
  shows "is_at_end (snd (lexer_next_token l))"
  using assms
  by (simp add: lexer_next_token_eof_iff)
     (simp add: lexer_next_token_def Let_def is_at_end_def peek_def)

lemma lexer_next_token_eof_again:
  assumes "tok_type (fst (lexer_next_token l)) = TOKEN_EOF"
  shows "tok_type (fst (lexer_next_token (snd (lexer_next_token l)))) = TOKEN_EOF"
  using lexer_next_token_eof_state [OF assms]
  by (simp add: lexer_next_token_eof_iff skip_whitespace_end)

lemma not_eof_in_buffer:
  assumes "tok_type (fst (lexer_next_token l)) \<noteq> TOKEN_EOF"
  shows "current l < length (source l)"
proof -
  have "\<not> is_at_end (skip_whitespace l)"
    using assms by (simp add: lexer_next_token_eof_iff)
  then have "current (skip_whitespace l) < length (source (skip_whitespace l))"
    by (rule not_end_lt_length)
  then show ?thesis
    using forward_skip_whitespace [OF forward_refl, of l] by (simp add: forward_def)
qed

section \<open>Parser (parser.h, parser.c)\<close>

text \<open>
  The value union of a literal node: written for INTEGER, FLOAT and STRING literals only.
  A double is kept as the text handed to \<^verbatim>\<open>strtod\<close>.
\<close>

datatype LiteralValue = Lit_unset | Lit_int int | Lit_float string | Lit_string string

text \<open>
  A \<^verbatim>\<open>char* name\<close> member: the copy of the name in the arena, or the member as
  \<^verbatim>\<open>arena_alloc\<close> left it when there was no room for the copy.
\<close>

datatype NameMember = Name string | Name_unset

text \<open>
  The node kinds \<^verbatim>\<open>parser.c\<close> builds, each with the position \<^verbatim>\<open>ast_allocate\<close> stores. A
  child pointer is an \<open>option\<close>: \<open>None\<close> is the null pointer \<^verbatim>\<open>primary\<close> returns on an
  error. An assignment and an expression statement reuse the \<^verbatim>\<open>binary\<close> member of the
  union; the expression statement writes its \<^verbatim>\<open>left\<close> only.
\<close>

datatype ASTNode =
    AST_LITERAL Position TokenType LiteralValue
  | AST_IDENTIFIER Position NameMember
  | AST_BINARY Position "ASTNode option" TokenType "ASTNode option"
  | AST_UNARY Position TokenType "ASTNode option"
  | AST_ASSIGNMENT Position "ASTNode option" TokenType "ASTNode option"
  | AST_EXPRESSION_STMT Position "ASTNode option"
  | AST_VAR_DECLARATION Position TokenType NameMember "ASTNode option"
  | AST_RETURN_STMT Position "ASTNode option"
  | AST_PROGRAM Position "ASTNode list"

text \<open>
  The parser owns its lexer here (the C parser holds a pointer to it and is its only
  user while it runs). Of its arena the model keeps \<^verbatim>\<open>used\<close>, the number of bytes handed
  out; \<^verbatim>\<open>size\<close> is \<^verbatim>\<open>ARENA_SIZE\<close> throughout.
\<close>

record Parser =
  lexer :: Lexer
  p_current :: Token
  p_previous :: Token
  had_error :: bool
  panic_mode :: bool
  p_error_message :: string
  arena_used :: int
  nodes_created :: int

text \<open>What the parser can do besides returning: the model's fuel runs out, or the C code
  reads through a null pointer or writes past the statement array.\<close>

datatype failure = OutOfFuel | NullDereference | ArrayOverflow

definition digit_char :: "nat \<Rightarrow> char" where
  "digit_char n = ''0123456789'' ! n"

fun show_nat :: "nat \<Rightarrow> string" where
  "show_nat n = (if n < 10 then [digit_char n] else show_nat (n div 10) @ [digit_char (n mod 10)])"

declare show_nat.simps [simp del]

text \<open>\<^verbatim>\<open>%d\<close> of \<^verbatim>\<open>snprintf\<close>.\<close>

definition show_int :: "int \<Rightarrow> string" where
  "show_int i = (if i < 0 then CHR ''-'' # show_nat (nat (- i)) else show_nat (nat i))"

definition parser_error :: "Parser \<Rightarrow> string \<Rightarrow> Parser" where
  "parser_error p message =
     (if panic_mode p then p
      else p\<lparr>panic_mode := True, had_error := True,
             p_error_message :=
               take 255 (''Error at line '' @ show_int (line (tok_pos (p_current p)))
                         @ '', column '' @ show_int (column (tok_pos (p_current p)))
                         @ '': '' @ message)\<rparr>)"

text \<open>
  The measure of the token loops of the parser: the bytes the lexer has left, and one more
  while the current token is of the kind the loop runs on.
\<close>

definition bytes_left :: "Parser \<Rightarrow> nat" where
  "bytes_left p = length (source (lexer p)) - current (lexer p)"

lemma next_token_bytes_left:
  assumes "lexer_next_token (lexer p) = (t, l)"
  shows "bytes_left (p'\<lparr>lexer := l\<rparr>) \<le> bytes_left p"
    and "tok_type t \<noteq> TOKEN_EOF \<Longrightarrow> bytes_left (p'\<lparr>lexer := l\<rparr>) < bytes_left p"
proof -
  have fw: "forward (lexer p) l"
    using forward_lexer_next_token [of "lexer p"] assms by simp
  then show "bytes_left (p'\<lparr>lexer := l\<rparr>) \<le> bytes_left p"
    by (auto simp: bytes_left_def forward_def)
  assume "tok_type t \<noteq> TOKEN_EOF"
  then have ne: "tok_type (fst (lexer_next_token (lexer p))) \<noteq> TOKEN_EOF"
    using assms by simp
  have "current (lexer p) < current l"
    using lexer_next_token_progress [OF ne] assms by simp
  moreover have "current (lexer p) < length (source (lexer p))"
    using ne by (rule not_eof_in_buffer)
  ultimately show "bytes_left (p'\<lparr>lexer := l\<rparr>) < bytes_left p"
    using fw by (auto simp: bytes_left_def forward_def)
qed

text \<open>The loop of \<^verbatim>\<open>advance\<close> that reports and skips ERROR tokens.\<close>

function skip_error_tokens :: "Parser \<Rightarrow> Parser" where
  "skip_error_tokens p =
     (if tok_type (p_current p) = TOKEN_ERROR then
        (let p1 = parser_error p ''Lexical error'';
             (t, l) = lexer_next_token (lexer p1)
         in skip_error_tokens (p1\<lparr>p_current := t, lexer := l\<rparr>))
      else p)"
  by pat_completeness auto
termination
proof (relation "measure (\<lambda>p. 2 * bytes_left p
                                + (if tok_type (p_current p) = TOKEN_ERROR then 1 else 0))")
  show "wf (measure (\<lambda>p. 2 * bytes_left p
                          + (if tok_type (p_current p) = TOKEN_ERROR then 1 else 0)))"
    by simp
next
  fix p :: Parser and p1 x t l
  assume a: "tok_type (p_current p) = TOKEN_ERROR" "p1 = parser_error p ''Lexical error''"
    "x = lexer_next_token (lexer p1)" "(t, l) = x"
  have lp: "lexer p1 = lexer p"
    using a(2) by (simp add: parser_error_def)
  have nt: "lexer_next_token (lexer p) = (t, l)"
    using a(3,4) lp by simp
  have bl: "bytes_left (q\<lparr>lexer := l\<rparr>) \<le> bytes_left p" for q
    using next_token_bytes_left(1) [OF nt] .
  have bs: "tok_type t \<noteq> TOKEN_EOF \<Longrightarrow> bytes_left (q\<lparr>lexer := l\<rparr>) < bytes_left p" for q
    using next_token_bytes_left(2) [OF nt] .
  have eq: "bytes_left (p1\<lparr>p_current := t, lexer := l\<rparr>) = bytes_left (p1\<lparr>lexer := l\<rparr>)"
    by (simp add: bytes_left_def)
  show "(p1\<lparr>p_current := t, lexer := l\<rparr>, p)
          \<in> measure (\<lambda>p. 2 * bytes_left p
                          + (if tok_type (p_current p) = TOKEN_ERROR then 1 else 0))"
  proof (cases "tok_type t = TOKEN_ERROR")
    case True
    then have "tok_type t \<noteq> TOKEN_EOF" by simp
    then show ?thesis using bs [of p1] a(1) True eq by simp
  next
    case False
    then show ?thesis using bl [of p1] a(1) eq by simp
  qed
qed

declare skip_error_tokens.simps [simp del]

text \<open>\<^verbatim>\<open>advance\<close>, \<^verbatim>\<open>check\<close>, \<^verbatim>\<open>match\<close> and \<^verbatim>\<open>consume\<close> of parser.c.\<close>

definition parser_advance :: "Parser \<Rightarrow> Parser" where
  "parser_advance p =
     (let p1 = p\<lparr>p_previous := p_current p\<rparr>;
          (t, l) = lexer_next_token (lexer p1)
      in skip_error_tokens (p1\<lparr>p_current := t, lexer := l\<rparr>))"

definition check :: "Parser \<Rightarrow> TokenType \<Rightarrow> bool" where
  "check p ty = (tok_type (p_current p) = ty)"

definition parser_match :: "Parser \<Rightarrow> TokenType \<Rightarrow> bool \<times> Parser" where
  "parser_match p ty = (if \<not> check p ty then (False, p) else (True, parser_advance p))"

definition consume :: "Parser \<Rightarrow> TokenType \<Rightarrow> string \<Rightarrow> bool \<times> Parser" where
  "consume p ty message =
     (if tok_type (p_current p) = ty then (True, parser_advance p)
      else (False, parser_error p message))"

text \<open>\<^verbatim>\<open>match(parser, a) || match(parser, b) || ...\<close>, left to right.\<close>

primrec match_any :: "Parser \<Rightarrow> TokenType list \<Rightarrow> bool \<times> Parser" where
  "match_any p [] = (False, p)"
| "match_any p (ty # tys) =
     (let (m, p1) = parser_match p ty in if m then (True, p1) else match_any p1 tys)"

lemma skip_error_tokens_id:
  "tok_type (p_current p) \<noteq> TOKEN_ERROR \<Longrightarrow> skip_error_tokens p = p"
  by (subst skip_error_tokens.simps) simp

lemma skip_error_tokens_bytes_left: "bytes_left (skip_error_tokens p) \<le> bytes_left p"
proof (induction p rule: skip_error_tokens.induct)
  case (1 p)
  show ?case
  proof (cases "tok_type (p_current p) = TOKEN_ERROR")
    case False
    then show ?thesis by (simp add: skip_error_tokens_id)
  next
    case True
    let ?p1 = "parser_error p ''Lexical error''"
    obtain t l where tl: "lexer_next_token (lexer ?p1) = (t, l)"
      by (cases "lexer_next_token (lexer ?p1)")
    have lp: "lexer ?p1 = lexer p"
      by (simp add: parser_error_def)
    have unf: "skip_error_tokens p = skip_error_tokens (?p1\<lparr>p_current := t, lexer := l\<rparr>)"
      using True tl by (subst skip_error_tokens.simps) (simp add: Let_def)
    have "bytes_left (skip_error_tokens (?p1\<lparr>p_current := t, lexer := l\<rparr>))
            \<le> bytes_left (?p1\<lparr>p_current := t, lexer := l\<rparr>)"
      using "1.IH" [OF True refl refl tl [symmetric]] .
    moreover have "bytes_left (?p1\<lparr>p_current := t, lexer := l\<rparr>) \<le> bytes_left p"
      using next_token_bytes_left(1) [of p t l "?p1\<lparr>p_current := t\<rparr>"] tl lp by simp
    ultimately show ?thesis using unf by simp
  qed
qed

lemma parser_advance_bytes_left:
  shows "bytes_left (parser_advance p) \<le> bytes_left p"
    and "tok_type (p_current (parser_advance p)) \<noteq> TOKEN_EOF \<Longrightarrow>
         bytes_left (parser_advance p) < bytes_left p"
proof -
  obtain t l where tl: "lexer_next_token (lexer p) = (t, l)"
    by (cases "lexer_next_token (lexer p)")
  let ?q = "p\<lparr>p_previous := p_current p, p_current := t, lexer := l\<rparr>"
  have adv: "parser_advance p = skip_error_tokens ?q"
    using tl by (simp add: parser_advance_def Let_def)
  have le_q: "bytes_left ?q \<le> bytes_left p"
    using next_token_bytes_left(1) [OF tl, of "p\<lparr>p_previous := p_current p, p_current := t\<rparr>"]
    by simp
  show "bytes_left (parser_advance p) \<le> bytes_left p"
    using adv le_q skip_error_tokens_bytes_left [of ?q] by simp
  assume ne: "tok_type (p_current (parser_advance p)) \<noteq> TOKEN_EOF"
  have "tok_type t \<noteq> TOKEN_EOF"
  proof
    assume e: "tok_type t = TOKEN_EOF"
    then have "skip_error_tokens ?q = ?q"
      by (simp add: skip_error_tokens_id)
    then show False using ne adv e by simp
  qed
  then have "bytes_left ?q < bytes_left p"
    using next_token_bytes_left(2) [OF tl, of "p\<lparr>p_previous := p_current p, p_current := t\<rparr>"]
    by simp
  then show "bytes_left (parser_advance p) < bytes_left p"
    using adv skip_error_tokens_bytes_left [of ?q] by simp
qed

text \<open>The loop of \<^verbatim>\<open>synchronize\<close>, and \<^verbatim>\<open>synchronize\<close>.\<close>

function synchronize_loop :: "Parser \<Rightarrow> Parser" where
  "synchronize_loop p =
     (if tok_type (p_current p) \<noteq> TOKEN_EOF then
        (if tok_type (p_previous p) = TOKEN_SEMICOLON then p
         else if tok_type (p_current p) \<in> {TOKEN_CLASS, TOKEN_FUNCTION, TOKEN_VAR, TOKEN_FOR,
                                            TOKEN_IF, TOKEN_WHILE, TOKEN_RETURN} then p
         else synchronize_loop (parser_advance p))
      else p)"
  by pat_completeness auto
termination
proof (relation "measure (\<lambda>p. 2 * bytes_left p
                                + (if tok_type (p_current p) \<noteq> TOKEN_EOF then 1 else 0))")
  show "wf (measure (\<lambda>p. 2 * bytes_left p
                          + (if tok_type (p_current p) \<noteq> TOKEN_EOF then 1 else 0)))"
    by simp
next
  fix p :: Parser
  assume a: "tok_type (p_current p) \<noteq> TOKEN_EOF"
  show "(parser_advance p, p)
          \<in> measure (\<lambda>p. 2 * bytes_left p
                          + (if tok_type (p_current p) \<noteq> TOKEN_EOF then 1 else 0))"
  proof (cases "tok_type (p_current (parser_advance p)) = TOKEN_EOF")
    case True
    then show ?thesis using a parser_advance_bytes_left(1) [of p] by simp
  next
    case False
    then show ?thesis using a parser_advance_bytes_left(2) [of p] by simp
  qed
qed

declare synchronize_loop.simps [simp del]

definition synchronize :: "Parser \<Rightarrow> Parser" where
  "synchronize p = synchronize_loop (p\<lparr>panic_mode := False\<rparr>)"

text \<open>The loop of \<^verbatim>\<open>parser_create\<close> over leading NEWLINE tokens.\<close>

function skip_leading_newlines :: "Parser \<Rightarrow> Parser" where
  "skip_leading_newlines p =
     (if tok_type (p_current p) = TOKEN_NEWLINE \<and> tok_type (p_current p) \<noteq> TOKEN_EOF then
        (let (t, l) = lexer_next_token (lexer p)
         in skip_leading_newlines (p\<lparr>p_current := t, lexer := l\<rparr>))
      else p)"
  by pat_completeness auto
termination
proof (relation "measure (\<lambda>p. 2 * bytes_left p
                                + (if tok_type (p_current p) = TOKEN_NEWLINE then 1 else 0))")
  show "wf (measure (\<lambda>p. 2 * bytes_left p
                          + (if tok_type (p_current p) = TOKEN_NEWLINE then 1 else 0)))"
    by simp
next
  fix p :: Parser and x t l
  assume a: "tok_type (p_current p) = TOKEN_NEWLINE \<and> tok_type (p_current p) \<noteq> TOKEN_EOF"
    "x = lexer_next_token (lexer p)" "(t, l) = x"
  have nt: "lexer_next_token (lexer p) = (t, l)"
    using a(2,3) by simp
  have eq: "bytes_left (p\<lparr>p_current := t, lexer := l\<rparr>) = bytes_left (p\<lparr>lexer := l\<rparr>)"
    by (simp add: bytes_left_def)
  show "(p\<lparr>p_current := t, lexer := l\<rparr>, p)
          \<in> measure (\<lambda>p. 2 * bytes_left p
                          + (if tok_type (p_current p) = TOKEN_NEWLINE then 1 else 0))"
  proof (cases "tok_type t = TOKEN_NEWLINE")
    case True
    then have "tok_type t \<noteq> TOKEN_EOF" by simp
    then show ?thesis using next_token_bytes_left(2) [OF nt, of p] a(1) True eq by simp
  next
    case False
    then show ?thesis using next_token_bytes_left(1) [OF nt, of p] a(1) eq by simp
  qed
qed

declare skip_leading_newlines.simps [simp del]

text \<open>
  \<^verbatim>\<open>parser_create\<close>, when \<^verbatim>\<open>malloc\<close> gives the parser and its arena. It leaves \<^verbatim>\<open>previous\<close> as
  \<^verbatim>\<open>malloc\<close> returned it; \<open>prev0\<close> is that content.
\<close>

definition parser_create :: "Lexer \<Rightarrow> Token \<Rightarrow> Parser" where
  "parser_create l prev0 =
     (let (t, l1) = lexer_next_token l
      in skip_leading_newlines
           \<lparr>lexer = l1, p_current = t, p_previous = prev0, had_error = False,
            panic_mode = False, p_error_message = [], arena_used = 0,
            nodes_created = 0\<rparr>)"

subsection \<open>AST node creation\<close>

text \<open>
  \<^verbatim>\<open>arena_alloc\<close> on the parser's arena: \<open>False\<close> is the null pointer it returns when the
  request does not fit, and then nothing is handed out. The sum is a \<^verbatim>\<open>size_t\<close>; a request
  of parser.c is no longer than the source, so the sum does not wrap.
\<close>

definition ARENA_SIZE :: int where
  "ARENA_SIZE = 65536"

definition arena_alloc :: "Parser \<Rightarrow> int \<Rightarrow> bool \<times> Parser" where
  "arena_alloc p bytes =
     (if arena_used p + bytes > ARENA_SIZE then (False, p)
      else (True, p\<lparr>arena_used := arena_used p + bytes\<rparr>))"

text \<open>
  \<^verbatim>\<open>sizeof(ASTNode)\<close> and \<^verbatim>\<open>sizeof(ASTNode*)\<close> where \<^verbatim>\<open>int\<close> and the enumerations take 4 bytes and
  a pointer 8: the kind at offset 0, the position (two \<^verbatim>\<open>int\<close> and a pointer) at offset 8,
  and at offset 24 the union, whose largest member, the function declaration, takes 40.
\<close>

definition sizeof_ASTNode :: int where
  "sizeof_ASTNode = 64"

definition sizeof_pointer :: int where
  "sizeof_pointer = 8"

text \<open>
  \<^verbatim>\<open>ast_allocate\<close> gives the new node its position, or returns the null pointer (\<open>None\<close>)
  when the arena is full; the constructor gives the node its kind.
\<close>

definition ast_allocate :: "Parser \<Rightarrow> Position option \<times> Parser" where
  "ast_allocate p =
     (let (fits, p1) = arena_alloc p sizeof_ASTNode
      in if \<not> fits then (None, p1)
         else (Some (tok_pos (p_previous p1)), p1\<lparr>nodes_created := nodes_created p1 + 1\<rparr>))"

text \<open>The copy of a name in the arena, as the node creators make it.\<close>

definition copy_name :: "Parser \<Rightarrow> string \<Rightarrow> NameMember \<times> Parser" where
  "copy_name p name =
     (let (fits, p1) = arena_alloc p (int (length name) + 1)
      in (if fits then Name name else Name_unset, p1))"

definition ast_create_literal :: "Parser \<Rightarrow> TokenType \<Rightarrow> Token \<Rightarrow> ASTNode option \<times> Parser" where
  "ast_create_literal p ty token =
     (case ast_allocate p of
        (None, p1) \<Rightarrow> (None, p1)
      | (Some npos, p1) \<Rightarrow>
          (let text_at = c_string_at (source (lexer p)) in
           if ty = TOKEN_INTEGER then
             (Some (AST_LITERAL npos ty (Lit_int (strtoll (text_at (tok_start token)) 10))), p1)
           else if ty = TOKEN_FLOAT then
             (Some (AST_LITERAL npos ty (Lit_float (text_at (tok_start token)))), p1)
           else if ty = TOKEN_STRING then
             (let len = tok_length token - 2;
                  (fits, p2) = arena_alloc p1 (int len + 1)
              in (Some (AST_LITERAL npos ty
                          (if fits then Lit_string (take len (text_at (tok_start token + 1)))
                           else Lit_unset)),
                  p2))
           else (Some (AST_LITERAL npos ty Lit_unset), p1)))"

definition ast_create_identifier :: "Parser \<Rightarrow> string \<Rightarrow> ASTNode option \<times> Parser" where
  "ast_create_identifier p name =
     (case ast_allocate p of
        (None, p1) \<Rightarrow> (None, p1)
      | (Some npos, p1) \<Rightarrow>
          (let (name_copy, p2) = copy_name p1 name in (Some (AST_IDENTIFIER npos name_copy), p2)))"

definition ast_create_binary ::
  "Parser \<Rightarrow> ASTNode option \<Rightarrow> TokenType \<Rightarrow> ASTNode option \<Rightarrow> ASTNode option \<times> Parser" where
  "ast_create_binary p left op right =
     (case ast_allocate p of
        (None, p1) \<Rightarrow> (None, p1)
      | (Some npos, p1) \<Rightarrow> (Some (AST_BINARY npos left op right), p1))"

definition ast_create_unary ::
  "Parser \<Rightarrow> TokenType \<Rightarrow> ASTNode option \<Rightarrow> ASTNode option \<times> Parser" where
  "ast_create_unary p op operand =
     (case ast_allocate p of
        (None, p1) \<Rightarrow> (None, p1)
      | (Some npos, p1) \<Rightarrow> (Some (AST_UNARY npos op operand), p1))"

definition ast_create_return :: "Parser \<Rightarrow> ASTNode option \<Rightarrow> ASTNode option \<times> Parser" where
  "ast_create_return p v =
     (case ast_allocate p of
        (None, p1) \<Rightarrow> (None, p1)
      | (Some npos, p1) \<Rightarrow> (Some (AST_RETURN_STMT npos v), p1))"

definition ast_create_var_decl ::
  "Parser \<Rightarrow> TokenType \<Rightarrow> string \<Rightarrow> ASTNode option \<Rightarrow> ASTNode option \<times> Parser" where
  "ast_create_var_decl p ty name init =
     (case ast_allocate p of
        (None, p1) \<Rightarrow> (None, p1)
      | (Some npos, p1) \<Rightarrow>
          (let (name_copy, p2) = copy_name p1 name
           in (Some (AST_VAR_DECLARATION npos ty name_copy init), p2)))"

text \<open>
  The bytes of the previous token copied into \<^verbatim>\<open>char name[256]\<close>: at most 255 of them.
\<close>

definition previous_lexeme :: "Parser \<Rightarrow> string" where
  "previous_lexeme p =
     (let len = tok_length (p_previous p);
          len' = (if len \<ge> 256 then 255 else len)
      in take len' (c_string_at (source (lexer p)) (tok_start (p_previous p))))"

subsection \<open>Recursive descent\<close>

text \<open>
  The expression rules call each other without a bound that the types show, so they run
  on fuel: one unit per call of a rule, \<open>Inl OutOfFuel\<close> when none is left. \<open>None\<close> as a
  node is the null pointer. Each rule is first written with the rules it calls as
  arguments. Where the C code reads or writes a member through a pointer that is null,
  the rule ends with \<open>Inl NullDereference\<close>.
\<close>

type_synonym parse_result = "failure + (ASTNode option \<times> Parser)"

fun is_identifier :: "ASTNode \<Rightarrow> bool" where
  "is_identifier (AST_IDENTIFIER npos name) = True"
| "is_identifier node = False"

text \<open>
  \<^verbatim>\<open>primary\<close>; \<open>expression\<close> is the rule it calls inside parentheses.
\<close>

definition primary_rule :: "(Parser \<Rightarrow> parse_result) \<Rightarrow> Parser \<Rightarrow> parse_result" where
  "primary_rule expression p =
     (let (m1, p1) = match_any p [TOKEN_TRUE, TOKEN_FALSE] in
      if m1 then Inr (ast_create_literal p1 TOKEN_BOOL_KW (p_previous p1)) else
      let (m2, p2) = parser_match p1 TOKEN_NULL in
      if m2 then Inr (ast_create_literal p2 TOKEN_NULL (p_previous p2)) else
      let (m3, p3) = parser_match p2 TOKEN_INTEGER in
      if m3 then Inr (ast_create_literal p3 TOKEN_INTEGER (p_previous p3)) else
      let (m4, p4) = parser_match p3 TOKEN_FLOAT in
      if m4 then Inr (ast_create_literal p4 TOKEN_FLOAT (p_previous p4)) else
      let (m5, p5) = parser_match p4 TOKEN_STRING in
      if m5 then Inr (ast_create_literal p5 TOKEN_STRING (p_previous p5)) else
      let (m6, p6) = parser_match p5 TOKEN_IDENTIFIER in
      if m6 then Inr (ast_create_identifier p6 (previous_lexeme p6)) else
      let (m7, p7) = parser_match p6 TOKEN_LPAREN in
      if m7 then
        (case expression p7 of
           Inl f \<Rightarrow> Inl f
         | Inr (expr, p8) \<Rightarrow>
             Inr (expr, snd (consume p8 TOKEN_RPAREN
                               (''Expected '' @ [SQUOTE] @ '')'' @ [SQUOTE] @ '' after expression''))))
      else Inr (None, parser_error p7 ''Expected expression''))"

text \<open>\<^verbatim>\<open>unary\<close>, with the rules it calls: itself and \<^verbatim>\<open>primary\<close>.\<close>

definition unary_rule ::
  "(Parser \<Rightarrow> parse_result) \<Rightarrow> (Parser \<Rightarrow> parse_result) \<Rightarrow> Parser \<Rightarrow> parse_result" where
  "unary_rule unary primary p =
     (let (m, p1) = match_any p [TOKEN_NOT, TOKEN_MINUS] in
      if m then
        (let operator = tok_type (p_previous p1) in
         case unary p1 of
           Inl f \<Rightarrow> Inl f
         | Inr (right, p2) \<Rightarrow> Inr (ast_create_unary p2 operator right))
      else primary p1)"

text \<open>
  \<^verbatim>\<open>factor\<close>, \<^verbatim>\<open>term\<close>, \<^verbatim>\<open>comparison\<close>, \<^verbatim>\<open>equality\<close>, \<^verbatim>\<open>logical_and\<close> and \<^verbatim>\<open>logical_or\<close> are the
  same function up to the operators they match and the rule they call for an operand:
  \<open>binary_rule\<close> is the function up to its loop, \<open>binary_loop\<close> one test of the
  \<^verbatim>\<open>while\<close> with its body, \<open>continue\<close> being the loop itself.
\<close>

definition binary_rule ::
  "(Parser \<Rightarrow> parse_result) \<Rightarrow> (ASTNode option \<Rightarrow> Parser \<Rightarrow> parse_result)
   \<Rightarrow> Parser \<Rightarrow> parse_result" where
  "binary_rule operand loop p =
     (case operand p of Inl f \<Rightarrow> Inl f | Inr (expr, p1) \<Rightarrow> loop expr p1)"

definition binary_loop ::
  "TokenType list \<Rightarrow> (Parser \<Rightarrow> parse_result) \<Rightarrow> (ASTNode option \<Rightarrow> Parser \<Rightarrow> parse_result)
   \<Rightarrow> ASTNode option \<Rightarrow> Parser \<Rightarrow> parse_result" where
  "binary_loop ops operand continue expr p =
     (let (m, p1) = match_any p ops in
      if m then
        (let operator = tok_type (p_previous p1) in
         case operand p1 of
           Inl f \<Rightarrow> Inl f
         | Inr (right, p2) \<Rightarrow>
             (let (node, p3) = ast_create_binary p2 expr operator right
              in continue node p3))
      else Inr (expr, p1))"

text \<open>\<^verbatim>\<open>assignment\<close>, with the rules it calls: \<^verbatim>\<open>logical_or\<close> and itself.\<close>

definition assignment_rule ::
  "(Parser \<Rightarrow> parse_result) \<Rightarrow> (Parser \<Rightarrow> parse_result) \<Rightarrow> Parser \<Rightarrow> parse_result" where
  "assignment_rule logical_or assignment p =
     (case logical_or p of
        Inl f \<Rightarrow> Inl f
      | Inr (expr, p1) \<Rightarrow>
          (let (m, p2) = parser_match p1 TOKEN_ASSIGN in
           if m then
             (case assignment p2 of
                Inl f \<Rightarrow> Inl f
              | Inr (v, p3) \<Rightarrow>
                  (case expr of
                     None \<Rightarrow> Inl NullDereference
                   | Some e \<Rightarrow>
                       if is_identifier e then
                         (case ast_allocate p3 of
                            (None, p4) \<Rightarrow> Inl NullDereference
                          | (Some npos, p4) \<Rightarrow>
                              Inr (Some (AST_ASSIGNMENT npos expr TOKEN_ASSIGN v), p4))
                       else Inr (expr, parser_error p3 ''Invalid assignment target'')))
           else Inr (expr, p2)))"

datatype rule =
    Primary | Unary | Factor | Factor_loop | Term | Term_loop | Comparison | Comparison_loop
  | Equality | Equality_loop | Logical_and | Logical_and_loop | Logical_or | Logical_or_loop
  | Assignment | Expression

text \<open>
  The rules tied together: \<open>parse_rule n r expr p\<close> runs rule \<open>r\<close> with fuel \<open>n\<close>, each call
  of a rule taking one unit. \<open>expr\<close> is the left operand a loop carries; the other rules
  ignore it.
\<close>

primrec parse_rule :: "nat \<Rightarrow> rule \<Rightarrow> ASTNode option \<Rightarrow> Parser \<Rightarrow> parse_result" where
  "parse_rule 0 r expr p = Inl OutOfFuel"
| "parse_rule (Suc n) r expr p =
     (case r of
        Primary \<Rightarrow> primary_rule (parse_rule n Expression None) p
      | Unary \<Rightarrow> unary_rule (parse_rule n Unary None) (parse_rule n Primary None) p
      | Factor \<Rightarrow> binary_rule (parse_rule n Unary None) (parse_rule n Factor_loop) p
      | Factor_loop \<Rightarrow>
          binary_loop [TOKEN_DIVIDE, TOKEN_MULTIPLY, TOKEN_MODULO]
            (parse_rule n Unary None) (parse_rule n Factor_loop) expr p
      | Term \<Rightarrow> binary_rule (parse_rule n Factor None) (parse_rule n Term_loop) p
      | Term_loop \<Rightarrow>
          binary_loop [TOKEN_MINUS, TOKEN_PLUS]
            (parse_rule n Factor None) (parse_rule n Term_loop) expr p
      | Comparison \<Rightarrow> binary_rule (parse_rule n Term None) (parse_rule n Comparison_loop) p
      | Comparison_loop \<Rightarrow>
          binary_loop [TOKEN_GREATER, TOKEN_GREATER_EQUAL, TOKEN_LESS, TOKEN_LESS_EQUAL]
            (parse_rule n Term None) (parse_rule n Comparison_loop) expr p
      | Equality \<Rightarrow> binary_rule (parse_rule n Comparison None) (parse_rule n Equality_loop) p
      | Equality_loop \<Rightarrow>
          binary_loop [TOKEN_NOT_EQUAL, TOKEN_EQUAL]
            (parse_rule n Comparison None) (parse_rule n Equality_loop) expr p
      | Logical_and \<Rightarrow> binary_rule (parse_rule n Equality None) (parse_rule n Logical_and_loop) p
      | Logical_and_loop \<Rightarrow>
          binary_loop [TOKEN_AND]
            (parse_rule n Equality None) (parse_rule n Logical_and_loop) expr p
      | Logical_or \<Rightarrow> binary_rule (parse_rule n Logical_and None) (parse_rule n Logical_or_loop) p
      | Logical_or_loop \<Rightarrow>
          binary_loop [TOKEN_OR]
            (parse_rule n Logical_and None) (parse_rule n Logical_or_loop) expr p
      | Assignment \<Rightarrow> assignment_rule (parse_rule n Logical_or None) (parse_rule n Assignment None) p
      | Expression \<Rightarrow> parse_rule n Assignment None p)"

definition expression :: "nat \<Rightarrow> Parser \<Rightarrow> parse_result" where
  "expression n p = parse_rule n Expression None p"

definition var_declaration :: "nat \<Rightarrow> Parser \<Rightarrow> parse_result" where
  "var_declaration n p =
     (let ty = tok_type (p_previous p);
          p1 = snd (consume p TOKEN_IDENTIFIER ''Expected variable name'');
          name = previous_lexeme p1;
          (m, p2) = parser_match p1 TOKEN_ASSIGN
      in case (if m then expression n p2 else Inr (None, p2)) of
           Inl f \<Rightarrow> Inl f
         | Inr (initializer, p3) \<Rightarrow>
             (let p4 = snd (consume p3 TOKEN_SEMICOLON
                              (''Expected '' @ [SQUOTE] @ '';'' @ [SQUOTE]
                               @ '' after variable declaration''))
              in Inr (ast_create_var_decl p4 ty name initializer)))"

definition return_statement :: "nat \<Rightarrow> Parser \<Rightarrow> parse_result" where
  "return_statement n p =
     (case (if \<not> check p TOKEN_SEMICOLON then expression n p else Inr (None, p)) of
        Inl f \<Rightarrow> Inl f
      | Inr (v, p1) \<Rightarrow>
          (let p2 = snd (consume p1 TOKEN_SEMICOLON
                           (''Expected '' @ [SQUOTE] @ '';'' @ [SQUOTE] @ '' after return value''))
           in Inr (ast_create_return p2 v)))"

definition expression_statement :: "nat \<Rightarrow> Parser \<Rightarrow> parse_result" where
  "expression_statement n p =
     (case expression n p of
        Inl f \<Rightarrow> Inl f
      | Inr (expr, p1) \<Rightarrow>
          (let p2 = snd (consume p1 TOKEN_SEMICOLON
                           (''Expected '' @ [SQUOTE] @ '';'' @ [SQUOTE] @ '' after expression''))
           in case ast_allocate p2 of
                (None, p3) \<Rightarrow> Inl NullDereference
              | (Some npos, p3) \<Rightarrow> Inr (Some (AST_EXPRESSION_STMT npos expr), p3)))"

definition statement :: "nat \<Rightarrow> Parser \<Rightarrow> parse_result" where
  "statement n p =
     (let (m, p1) = parser_match p TOKEN_RETURN in
      if m then return_statement n p1 else expression_statement n p1)"

definition top_declaration :: "nat \<Rightarrow> Parser \<Rightarrow> parse_result" where
  "top_declaration n p =
     (let (m, p1) = match_any p [TOKEN_INT, TOKEN_FLOAT_KW, TOKEN_STRING_KW, TOKEN_BOOL_KW] in
      if m then var_declaration n p1 else statement n p1)"

text \<open>
  The loop of \<^verbatim>\<open>parser_parse\<close>. \<open>array\<close> tells whether \<^verbatim>\<open>arena_alloc\<close> gave the array
  \<^verbatim>\<open>statements\<close>; it has room for 1000 pointers and the loop tests neither the pointer nor
  the count.
\<close>

fun parse_loop ::
  "nat \<Rightarrow> bool \<Rightarrow> ASTNode list \<Rightarrow> Parser \<Rightarrow> failure + (ASTNode list \<times> Parser)" where
  "parse_loop 0 array statements p = Inl OutOfFuel"
| "parse_loop (Suc n) array statements p =
     (if \<not> check p TOKEN_EOF \<and> \<not> had_error p then
        (let (m, p1) = parser_match p TOKEN_NEWLINE in
         if m then parse_loop n array statements p1
         else
           (case top_declaration n p1 of
              Inl f \<Rightarrow> Inl f
            | Inr (decl, p2) \<Rightarrow>
                (case decl of
                   Some d \<Rightarrow>
                     if \<not> array then Inl NullDereference
                     else if length statements \<ge> 1000 then Inl ArrayOverflow
                     else parse_loop n array (statements @ [d])
                            (if panic_mode p2 then synchronize p2 else p2)
                 | None \<Rightarrow>
                     parse_loop n array statements
                       (if panic_mode p2 then synchronize p2 else p2))))
      else Inr (statements, p))"

text \<open>
  \<^verbatim>\<open>parser_parse\<close>: the null pointer when there is no room for the program node, else the
  program node with the statements of the loop.
\<close>

definition parser_parse :: "nat \<Rightarrow> Parser \<Rightarrow> parse_result" where
  "parser_parse fuel p =
     (case ast_allocate p of
        (None, p0) \<Rightarrow> Inr (None, p0)
      | (Some npos, p0) \<Rightarrow>
          (let (array, p1) = arena_alloc p0 (sizeof_pointer * 1000)
           in case parse_loop fuel array [] p1 of
                Inl f \<Rightarrow> Inl f
              | Inr (statements, p2) \<Rightarrow> Inr (Some (AST_PROGRAM npos statements), p2)))"

definition parser_has_error :: "Parser \<Rightarrow> bool" where
  "parser_has_error p = had_error p"

definition parser_get_error :: "Parser \<Rightarrow> string" where
  "parser_get_error p = p_error_message p"

section \<open>Code generator (codegen.h, codegen.c)\<close>

datatype OutputFormat = OUTPUT_C | OUTPUT_JAVASCRIPT | OUTPUT_PYTHON | OUTPUT_BYTECODE

text \<open>
  What \<^verbatim>\<open>fprintf\<close> appends to the output file: text, the \<^verbatim>\<open>%g\<close> rendering of the double
  read from a text, or the rendering of a member that was never written.
\<close>

datatype out_item = Out_text string | Out_double string | Out_indeterminate

record CodeGenerator =
  output_file :: "out_item list"
  format :: OutputFormat
  indent_level :: int
  cg_had_error :: bool
  cg_error_message :: string
  lines_generated :: int
  variables_declared :: int
  functions_generated :: int

text \<open>\<^verbatim>\<open>codegen_create\<close>; \<open>opened\<close> tells whether \<^verbatim>\<open>fopen\<close> gave a file.\<close>

definition codegen_create :: "bool \<Rightarrow> OutputFormat \<Rightarrow> CodeGenerator option" where
  "codegen_create opened fmt =
     (if \<not> opened then None
      else Some \<lparr>output_file = [], format = fmt, indent_level = 0, cg_had_error = False,
                 cg_error_message = [], lines_generated = 0, variables_declared = 0,
                 functions_generated = 0\<rparr>)"

definition emit :: "CodeGenerator \<Rightarrow> out_item \<Rightarrow> CodeGenerator" where
  "emit cg item = cg\<lparr>output_file := output_file cg @ [item]\<rparr>"

definition emit_indent :: "CodeGenerator \<Rightarrow> CodeGenerator" where
  "emit_indent cg =
     cg\<lparr>output_file := output_file cg @ replicate (nat (indent_level cg)) (Out_text ''    '')\<rparr>"

definition emit_line :: "CodeGenerator \<Rightarrow> string \<Rightarrow> CodeGenerator" where
  "emit_line cg ln =
     (let cg1 = emit (emit_indent cg) (Out_text (ln @ [NEWLINE_CHAR]))
      in cg1\<lparr>lines_generated := lines_generated cg1 + 1\<rparr>)"

definition codegen_error :: "CodeGenerator \<Rightarrow> string \<Rightarrow> CodeGenerator" where
  "codegen_error cg message = cg\<lparr>cg_had_error := True, cg_error_message := take 255 message\<rparr>"

fun generate_c_literal :: "CodeGenerator \<Rightarrow> ASTNode \<Rightarrow> CodeGenerator" where
  "generate_c_literal cg (AST_LITERAL npos ty v) =
     (if ty = TOKEN_INTEGER then
        emit cg (case v of Lit_int i \<Rightarrow> Out_text (show_int i) | _ \<Rightarrow> Out_indeterminate)
      else if ty = TOKEN_FLOAT then
        emit cg (case v of Lit_float s \<Rightarrow> Out_double s | _ \<Rightarrow> Out_indeterminate)
      else if ty = TOKEN_STRING then
        emit cg (case v of Lit_string s \<Rightarrow> Out_text ([DQUOTE] @ s @ [DQUOTE])
                 | _ \<Rightarrow> Out_indeterminate)
      else if ty = TOKEN_TRUE then emit cg (Out_text ''true'')
      else if ty = TOKEN_FALSE then emit cg (Out_text ''false'')
      else if ty = TOKEN_NULL then emit cg (Out_text ''NULL'')
      else codegen_error cg ''Unknown literal type'')"
| "generate_c_literal cg node = cg"

fun generate_c_identifier :: "CodeGenerator \<Rightarrow> ASTNode \<Rightarrow> CodeGenerator" where
  "generate_c_identifier cg (AST_IDENTIFIER npos name) =
     emit cg (case name of Name n \<Rightarrow> Out_text n | Name_unset \<Rightarrow> Out_indeterminate)"
| "generate_c_identifier cg node = cg"

text \<open>The \<^verbatim>\<open>switch\<close> of \<^verbatim>\<open>generate_c_binary\<close> on the operator.\<close>

definition emit_binary_operator :: "CodeGenerator \<Rightarrow> TokenType \<Rightarrow> CodeGenerator" where
  "emit_binary_operator cg op =
     (if op = TOKEN_PLUS then emit cg (Out_text '' + '')
      else if op = TOKEN_MINUS then emit cg (Out_text '' - '')
      else if op = TOKEN_MULTIPLY then emit cg (Out_text '' * '')
      else if op = TOKEN_DIVIDE then emit cg (Out_text '' / '')
      else if op = TOKEN_MODULO then emit cg (Out_text '' % '')
      else if op = TOKEN_EQUAL then emit cg (Out_text '' == '')
      else if op = TOKEN_NOT_EQUAL then emit cg (Out_text '' != '')
      else if op = TOKEN_LESS then emit cg (Out_text '' < '')
      else if op = TOKEN_LESS_EQUAL then emit cg (Out_text '' <= '')
      else if op = TOKEN_GREATER then emit cg (Out_text '' > '')
      else if op = TOKEN_GREATER_EQUAL then emit cg (Out_text '' >= '')
      else if op = TOKEN_AND then emit cg (Out_text '' && '')
      else if op = TOKEN_OR then emit cg (Out_text '' || '')
      else if op = TOKEN_ASSIGN then emit cg (Out_text '' = '')
      else codegen_error cg ''Unknown binary operator'')"

text \<open>
  \<^verbatim>\<open>generate_c_expression\<close> and \<^verbatim>\<open>generate_c_binary\<close>. The latter is called on binary and
  assignment nodes only, which share the \<^verbatim>\<open>binary\<close> member of the union; its last equation
  is never reached.
\<close>

fun generate_c_expression :: "CodeGenerator \<Rightarrow> ASTNode option \<Rightarrow> CodeGenerator"
  and generate_c_binary :: "CodeGenerator \<Rightarrow> ASTNode \<Rightarrow> CodeGenerator"
where
  "generate_c_expression cg None = cg"
| "generate_c_expression cg (Some (AST_LITERAL npos ty v)) =
     generate_c_literal cg (AST_LITERAL npos ty v)"
| "generate_c_expression cg (Some (AST_IDENTIFIER npos name)) =
     generate_c_identifier cg (AST_IDENTIFIER npos name)"
| "generate_c_expression cg (Some (AST_BINARY npos left op right)) =
     generate_c_binary cg (AST_BINARY npos left op right)"
| "generate_c_expression cg (Some (AST_ASSIGNMENT npos left op right)) =
     generate_c_binary cg (AST_ASSIGNMENT npos left op right)"
| "generate_c_expression cg (Some node) = codegen_error cg ''Unknown expression type''"
| "generate_c_binary cg (AST_BINARY npos left op right) =
     (let cg1 = emit cg (Out_text ''('');
          cg2 = generate_c_expression cg1 left;
          cg3 = emit_binary_operator cg2 op;
          cg4 = generate_c_expression cg3 right
      in emit cg4 (Out_text '')''))"
| "generate_c_binary cg (AST_ASSIGNMENT npos left op right) =
     (let cg1 = emit cg (Out_text ''('');
          cg2 = generate_c_expression cg1 left;
          cg3 = emit_binary_operator cg2 op;
          cg4 = generate_c_expression cg3 right
      in emit cg4 (Out_text '')''))"
| "generate_c_binary cg node = cg"

fun generate_c_var_declaration :: "CodeGenerator \<Rightarrow> ASTNode \<Rightarrow> CodeGenerator" where
  "generate_c_var_declaration cg (AST_VAR_DECLARATION npos ty name init) =
     (let cg1 = emit_indent cg;
          cg2 = (if ty = TOKEN_INT then emit cg1 (Out_text ''int '')
                 else if ty = TOKEN_FLOAT_KW then emit cg1 (Out_text ''double '')
                 else if ty = TOKEN_STRING_KW then emit cg1 (Out_text ''char* '')
                 else if ty = TOKEN_BOOL_KW then emit cg1 (Out_text ''bool '')
                 else emit cg1 (Out_text ''int ''));
          cg3 = emit cg2 (case name of Name n \<Rightarrow> Out_text n | Name_unset \<Rightarrow> Out_indeterminate);
          cg4 = (case init of
                   None \<Rightarrow> cg3
                 | Some i \<Rightarrow> generate_c_expression (emit cg3 (Out_text '' = '')) init);
          cg5 = emit cg4 (Out_text ('';'' @ [NEWLINE_CHAR]))
      in cg5\<lparr>lines_generated := lines_generated cg5 + 1,
              variables_declared := variables_declared cg5 + 1\<rparr>)"
| "generate_c_var_declaration cg node = cg"

fun generate_c_statement :: "CodeGenerator \<Rightarrow> ASTNode option \<Rightarrow> CodeGenerator" where
  "generate_c_statement cg None = cg"
| "generate_c_statement cg (Some (AST_VAR_DECLARATION npos ty name init)) =
     generate_c_var_declaration cg (AST_VAR_DECLARATION npos ty name init)"
| "generate_c_statement cg (Some (AST_EXPRESSION_STMT npos expr)) =
     (let cg1 = emit_indent cg;
          cg2 = generate_c_expression cg1 expr;
          cg3 = emit cg2 (Out_text ('';'' @ [NEWLINE_CHAR]))
      in cg3\<lparr>lines_generated := lines_generated cg3 + 1\<rparr>)"
| "generate_c_statement cg (Some (AST_RETURN_STMT npos v)) =
     (let cg1 = emit_indent cg;
          cg2 = emit cg1 (Out_text ''return'');
          cg3 = (case v of
                   None \<Rightarrow> cg2
                 | Some e \<Rightarrow> generate_c_expression (emit cg2 (Out_text '' '')) v);
          cg4 = emit cg3 (Out_text ('';'' @ [NEWLINE_CHAR]))
      in cg4\<lparr>lines_generated := lines_generated cg4 + 1\<rparr>)"
| "generate_c_statement cg (Some node) = codegen_error cg ''Unknown statement type''"

text \<open>
  \<^verbatim>\<open>generate_c_program\<close> on the program node \<^verbatim>\<open>parser_parse\<close> returns. On a node of another
  kind the C code reads the \<^verbatim>\<open>program\<close> member of a union that holds something else; the
  model leaves the generator as it is there.
\<close>

fun generate_c_program :: "CodeGenerator \<Rightarrow> ASTNode \<Rightarrow> CodeGenerator" where
  "generate_c_program cg (AST_PROGRAM npos statements) =
     (let cg1 = emit_line cg ''#include <stdio.h>'';
          cg2 = emit_line cg1 ''#include <stdlib.h>'';
          cg3 = emit_line cg2 ''#include <stdbool.h>'';
          cg4 = emit_line cg3 ''#include <string.h>'';
          cg5 = emit_line cg4 [];
          cg6 = emit_line cg5 ''int main() {'';
          cg7 = cg6\<lparr>indent_level := indent_level cg6 + 1\<rparr>;
          cg8 = fold (\<lambda>s g. generate_c_statement g (Some s)) statements cg7;
          cg9 = emit_line cg8 ''return 0;'';
          cg10 = cg9\<lparr>indent_level := indent_level cg9 - 1\<rparr>
      in emit_line cg10 ''}'')"
| "generate_c_program cg node = cg"

text \<open>\<^verbatim>\<open>codegen_generate\<close> on a generator that exists; \<open>None\<close> is a null \<^verbatim>\<open>ast\<close>.\<close>

definition codegen_generate :: "CodeGenerator \<Rightarrow> ASTNode option \<Rightarrow> bool \<times> CodeGenerator" where
  "codegen_generate cg ast =
     (case ast of
        None \<Rightarrow> (False, cg)
      | Some node \<Rightarrow>
          (case format cg of
             OUTPUT_C \<Rightarrow>
               (let cg1 = generate_c_program cg node in (\<not> cg_had_error cg1, cg1))
           | OUTPUT_JAVASCRIPT \<Rightarrow>
               (False, codegen_error cg ''JavaScript output not implemented yet'')
           | OUTPUT_PYTHON \<Rightarrow>
               (False, codegen_error cg ''Python output not implemented yet'')
           | OUTPUT_BYTECODE \<Rightarrow>
               (False, codegen_error cg ''Bytecode output not implemented yet'')))"

definition codegen_has_error :: "CodeGenerator \<Rightarrow> bool" where
  "codegen_has_error cg = cg_had_error cg"

definition codegen_get_error :: "CodeGenerator \<Rightarrow> string" where
  "codegen_get_error cg = cg_error_message cg"

section \<open>Notions the properties are stated with\<close>

text \<open>The lexer after \<open>n\<close> calls of \<^verbatim>\<open>lexer_next_token\<close>, and the token the next call returns.\<close>

primrec lexer_after :: "nat \<Rightarrow> Lexer \<Rightarrow> Lexer" where
  "lexer_after 0 l = l"
| "lexer_after (Suc n) l = lexer_after n (snd (lexer_next_token l))"

definition nth_token :: "nat \<Rightarrow> Lexer \<Rightarrow> Token" where
  "nth_token n l = fst (lexer_next_token (lexer_after n l))"

text \<open>The cursor is inside the source buffer or on its terminator.\<close>

definition in_buffer :: "Lexer \<Rightarrow> bool" where
  "in_buffer l = (current l \<le> length (source l))"

text \<open>The tokens the lexer returns up to its first EOF, at most \<open>n\<close> of them.\<close>

primrec tokens_upto :: "nat \<Rightarrow> Lexer \<Rightarrow> Token list" where
  "tokens_upto 0 l = []"
| "tokens_upto (Suc n) l =
     (case lexer_next_token l of
        (t, l') \<Rightarrow> t # (if tok_type t = TOKEN_EOF then [] else tokens_upto n l'))"

text \<open>
  \<open>msg_blind g\<close>: the token function \<open>g\<close> reads the latched message only to hand it on,
  and overwrites it exactly when it returns an ERROR token.
\<close>

definition msg_blind :: "(Lexer \<Rightarrow> Token \<times> Lexer) \<Rightarrow> bool" where
  "msg_blind g =
     (\<forall>l m. g (l\<lparr>error_message := m\<rparr>)
              = (fst (g l),
                 if tok_type (fst (g l)) = TOKEN_ERROR then snd (g l)
                 else (snd (g l))\<lparr>error_message := m\<rparr>))"

text \<open>\<^verbatim>\<open>lexer_next_token\<close> from the point where \<^verbatim>\<open>start\<close> and the counter are set.\<close>

definition scan_token :: "Lexer \<Rightarrow> Token \<times> Lexer" where
  "scan_token l2 =
     (if is_at_end l2 then (make_token l2 TOKEN_EOF, l2)
      else (let (c, l3) = advance l2 in
            if isalpha c \<or> c = CHR ''_'' then identifier_token l3
            else if isdigit c then number l3
            else token_switch c l3))"

text \<open>The messages lexer.c passes to \<^verbatim>\<open>error_token\<close>.\<close>

definition lexical_error_messages :: "string set" where
  "lexical_error_messages =
     {''Unterminated string'', ''Unterminated character literal'',
      ''Invalid token '' @ [SQUOTE] @ ''..'' @ [SQUOTE], ''Unexpected character''}"

text \<open>
  The driver's sequence \<^verbatim>\<open>lexer_create\<close>, \<^verbatim>\<open>parser_create\<close>, \<^verbatim>\<open>parser_parse\<close> on a source text.
\<close>

definition parse_source :: "nat \<Rightarrow> string \<Rightarrow> string \<Rightarrow> Token \<Rightarrow> parse_result" where
  "parse_source fuel src fname prev0 =
     parser_parse fuel (parser_create (lexer_create src fname) prev0)"

text \<open>A \<^verbatim>\<open>previous\<close> token of zero bytes, for the results that are stated in full.\<close>

definition blank_token :: Token where
  "blank_token =
     \<lparr>tok_type = Tok 0, tok_start = 0, tok_length = 0,
      tok_pos = \<lparr>line = 0, column = 0, filename = []\<rparr>, tok_value = Unset\<rparr>"

definition no_pos :: Position where
  "no_pos = \<lparr>line = 0, column = 0, filename = []\<rparr>"

text \<open>A tree with every position replaced by \<open>no_pos\<close>: its shape.\<close>

fun strip_pos :: "ASTNode \<Rightarrow> ASTNode" where
  "strip_pos (AST_LITERAL npos ty v) = AST_LITERAL no_pos ty v"
| "strip_pos (AST_IDENTIFIER npos name) = AST_IDENTIFIER no_pos name"
| "strip_pos (AST_BINARY npos left op right) =
     AST_BINARY no_pos (map_option strip_pos left) op (map_option strip_pos right)"
| "strip_pos (AST_UNARY npos op operand) = AST_UNARY no_pos op (map_option strip_pos operand)"
| "strip_pos (AST_ASSIGNMENT npos left op right) =
     AST_ASSIGNMENT no_pos (map_option strip_pos left) op (map_option strip_pos right)"
| "strip_pos (AST_EXPRESSION_STMT npos expr) = AST_EXPRESSION_STMT no_pos (map_option strip_pos expr)"
| "strip_pos (AST_VAR_DECLARATION npos ty name init) =
     AST_VAR_DECLARATION no_pos ty name (map_option strip_pos init)"
| "strip_pos (AST_RETURN_STMT npos v) = AST_RETURN_STMT no_pos (map_option strip_pos v)"
| "strip_pos (AST_PROGRAM npos statements) = AST_PROGRAM no_pos (map strip_pos statements)"

text \<open>The shape of the tree that parsing a source gives, or the failure.\<close>

definition parse_shape :: "nat \<Rightarrow> string \<Rightarrow> string \<Rightarrow> Token \<Rightarrow> failure + ASTNode option" where
  "parse_shape fuel src fname prev0 =
     map_sum id (\<lambda>r. map_option strip_pos (fst r)) (parse_source fuel src fname prev0)"



definition int_literal :: "int \<Rightarrow> ASTNode option" where
  "int_literal i = Some (AST_LITERAL no_pos TOKEN_INTEGER (Lit_int i))"



text \<open>The source of the specification's scenario S5: two lines.\<close>

definition s5_source :: string where
  "s5_source = ''int x 5;'' @ [NEWLINE_CHAR] @ ''int y = 7;''"

text \<open>The C generator on the tree that parsing a source gives.\<close>

definition compile_c :: "nat \<Rightarrow> string \<Rightarrow> string \<Rightarrow> Token \<Rightarrow> failure + (bool \<times> CodeGenerator)" where
  "compile_c fuel src fname prev0 =
     (case parse_source fuel src fname prev0 of
        Inl f \<Rightarrow> Inl f
      | Inr (ast, p) \<Rightarrow>
          Inr (codegen_generate
                 \<lparr>output_file = [], format = OUTPUT_C, indent_level = 0, cg_had_error = False,
                  cg_error_message = [], lines_generated = 0, variables_declared = 0,
                  functions_generated = 0\<rparr> ast))"

section \<open>The lexer reaches the end of input\<close>

lemma lexer_after_Suc_right:
  "lexer_after (Suc n) l = snd (lexer_next_token (lexer_after n l))"
  by (induction n arbitrary: l) simp_all

lemma nth_token_Suc: "nth_token (Suc n) l = nth_token n (snd (lexer_next_token l))"
  by (simp add: nth_token_def)

lemma eof_within:
  "\<exists>n \<le> length (source l) - current l. tok_type (nth_token n l) = TOKEN_EOF"
proof (induction "length (source l) - current l" arbitrary: l rule: less_induct)
  case less
  show ?case
  proof (cases "tok_type (fst (lexer_next_token l)) = TOKEN_EOF")
    case True
    then have "tok_type (nth_token 0 l) = TOKEN_EOF"
      by (simp add: nth_token_def)
    then show ?thesis by blast
  next
    case False
    let ?l' = "snd (lexer_next_token l)"
    have src: "source ?l' = source l"
      using forward_lexer_next_token [of l] by (simp add: forward_def)
    have lt: "current l < current ?l'"
      using False by (rule lexer_next_token_progress)
    have inb: "current l < length (source l)"
      using False by (rule not_eof_in_buffer)
    have "length (source ?l') - current ?l' < length (source l) - current l"
      using src lt inb by simp
    from less [OF this] obtain n where
      n: "n \<le> length (source ?l') - current ?l'" "tok_type (nth_token n ?l') = TOKEN_EOF"
      by blast
    have "Suc n \<le> length (source l) - current l"
      using n(1) src lt inb by simp
    moreover have "tok_type (nth_token (Suc n) l) = TOKEN_EOF"
      using n(2) by (simp add: nth_token_Suc)
    ultimately show ?thesis by blast
  qed
qed

lemma eof_stays:
  "tok_type (nth_token n l) = TOKEN_EOF \<Longrightarrow> tok_type (nth_token (n + k) l) = TOKEN_EOF"
proof (induction n arbitrary: l)
  case 0
  then have e: "tok_type (fst (lexer_next_token l)) = TOKEN_EOF"
    by (simp add: nth_token_def)
  show ?case
  proof (induction k)
    case 0
    then show ?case using e by (simp add: nth_token_def)
  next
    case (Suc k)
    have "lexer_after (Suc k) l = snd (lexer_next_token (lexer_after k l))"
      by (rule lexer_after_Suc_right)
    then show ?case
      using Suc lexer_next_token_eof_again [of "lexer_after k l"]
      by (simp add: nth_token_def del: lexer_after.simps)
  qed
next
  case (Suc n)
  then show ?case by (simp add: nth_token_Suc)
qed

lemma in_buffer_advance: "in_buffer l \<Longrightarrow> in_buffer (snd (advance l))"
  using not_end_lt_length [of l] by (auto simp: in_buffer_def advance_def)

lemma in_buffer_match: "in_buffer l \<Longrightarrow> in_buffer (snd (match l c))"
  using not_end_lt_length [of l] by (auto simp: in_buffer_def match_def)

lemma in_buffer_advance_while: "in_buffer l \<Longrightarrow> in_buffer (advance_while P l)"
proof (induction P l rule: advance_while.induct)
  case (1 P l)
  then show ?case
    by (cases "P (peek l) \<and> \<not> is_at_end l")
       (simp_all add: advance_while_step advance_while_stop in_buffer_advance)
qed

lemma in_buffer_advance_upto: "in_buffer l \<Longrightarrow> in_buffer (advance_upto n P l)"
  by (induction n arbitrary: l) (simp_all add: in_buffer_advance)

lemma in_buffer_skip_block_comment: "in_buffer l \<Longrightarrow> in_buffer (skip_block_comment l)"
proof (induction l rule: skip_block_comment.induct)
  case (1 l)
  show ?case
  proof (cases "is_at_end l")
    case True
    then show ?thesis using "1.prems" by (simp add: skip_block_comment_end)
  next
    case False
    then show ?thesis
      using 1
      by (cases "peek l = CHR ''*'' \<and> peek_next l = CHR ''/''")
         (simp_all add: skip_block_comment_step skip_block_comment_close in_buffer_advance)
  qed
qed

lemma in_buffer_string_step: "\<not> is_at_end l \<Longrightarrow> in_buffer (string_step l)"
proof -
  assume ne: "\<not> is_at_end l"
  then have "current l < length (source l)" by (rule not_end_lt_length)
  then have a: "in_buffer (l\<lparr>pos := p, current := current l + 1\<rparr>)" for p
    by (simp add: in_buffer_def)
  have "in_buffer l" using \<open>current l < length (source l)\<close> by (simp add: in_buffer_def)
  then have b: "in_buffer (snd (advance l))" by (rule in_buffer_advance)
  show ?thesis
    using a b
    by (simp add: string_step_def Let_def in_buffer_advance in_buffer_advance_upto)
qed

lemma string_loop_step:
  "peek l \<noteq> DQUOTE \<and> \<not> is_at_end l \<Longrightarrow> string_loop l = string_loop (string_step l)"
  by (subst string_loop.simps) simp

lemma string_loop_stop:
  "\<not> (peek l \<noteq> DQUOTE \<and> \<not> is_at_end l) \<Longrightarrow> string_loop l = l"
  by (subst string_loop.simps) (rule if_not_P)

lemma in_buffer_string_loop: "in_buffer l \<Longrightarrow> in_buffer (string_loop l)"
proof (induction l rule: string_loop.induct)
  case (1 l)
  then show ?case
    by (cases "peek l \<noteq> DQUOTE \<and> \<not> is_at_end l")
       (simp_all add: string_loop_step string_loop_stop in_buffer_string_step)
qed

lemma in_buffer_error_token: "in_buffer l \<Longrightarrow> in_buffer (snd (error_token l m))"
  by (simp add: in_buffer_def error_token_def)

lemma in_buffer_match_token: "in_buffer l \<Longrightarrow> in_buffer (snd (match_token l c x y))"
  by (simp add: match_token_def case_prod_beta in_buffer_match)

lemma in_buffer_string_token: "in_buffer l \<Longrightarrow> in_buffer (snd (string_token l))"
  by (simp add: string_token_def Let_def in_buffer_string_loop in_buffer_error_token
      in_buffer_advance)

lemma in_buffer_char_literal: "in_buffer l \<Longrightarrow> in_buffer (snd (char_literal l))"
  by (simp add: char_literal_def Let_def case_prod_beta in_buffer_match in_buffer_error_token
      in_buffer_advance)

lemma in_buffer_identifier_token: "in_buffer l \<Longrightarrow> in_buffer (snd (identifier_token l))"
  by (simp add: identifier_token_def Let_def in_buffer_advance_while)

lemma in_buffer_number: "in_buffer l \<Longrightarrow> in_buffer (snd (number l))"
  by (simp add: number_def number_scan_def Let_def case_prod_beta in_buffer_advance_while
      in_buffer_advance)

lemma in_buffer_token_switch: "in_buffer l \<Longrightarrow> in_buffer (snd (token_switch c l))"
  by (simp add: token_switch_def Let_def case_prod_beta in_buffer_match in_buffer_match_token
      in_buffer_error_token in_buffer_string_token in_buffer_char_literal)

lemma in_buffer_lexer_next_token:
  assumes "tok_type (fst (lexer_next_token l)) \<noteq> TOKEN_EOF"
  shows "in_buffer (snd (lexer_next_token l))"
proof -
  let ?l1 = "skip_whitespace l"
  let ?l2 = "?l1\<lparr>start := current ?l1, tokens_processed := tokens_processed ?l1 + 1\<rparr>"
  have ne: "\<not> is_at_end ?l2"
    using assms by (simp add: lexer_next_token_eof_iff is_at_end_def peek_def)
  then have "current ?l2 < length (source ?l2)" by (rule not_end_lt_length)
  then have "in_buffer ?l2" by (simp add: in_buffer_def)
  then have "in_buffer (snd (advance ?l2))" by (rule in_buffer_advance)
  then show ?thesis
    using ne
    by (simp add: lexer_next_token_def Let_def case_prod_beta in_buffer_identifier_token
        in_buffer_number in_buffer_token_switch)
qed

section \<open>The latched message does not steer the lexer\<close>

lemma peek_msg [simp]: "peek (l\<lparr>error_message := m\<rparr>) = peek l"
  by (simp add: peek_def)

lemma is_at_end_msg [simp]: "is_at_end (l\<lparr>error_message := m\<rparr>) = is_at_end l"
  by (simp add: is_at_end_def)

lemma peek_next_msg [simp]: "peek_next (l\<lparr>error_message := m\<rparr>) = peek_next l"
  by (simp add: peek_next_def)

lemma advance_msg [simp]:
  "snd (advance (l\<lparr>error_message := m\<rparr>)) = (snd (advance l))\<lparr>error_message := m\<rparr>"
  "fst (advance (l\<lparr>error_message := m\<rparr>)) = fst (advance l)"
  by (simp_all add: advance_def)

lemma match_msg [simp]:
  "snd (match (l\<lparr>error_message := m\<rparr>) c) = (snd (match l c))\<lparr>error_message := m\<rparr>"
  "fst (match (l\<lparr>error_message := m\<rparr>) c) = fst (match l c)"
  by (simp_all add: match_def)

lemma make_token_msg [simp]: "make_token (l\<lparr>error_message := m\<rparr>) ty = make_token l ty"
  by (simp add: make_token_def)

lemma error_token_msg [simp]: "error_token (l\<lparr>error_message := m\<rparr>) msg = error_token l msg"
  by (simp add: error_token_def)

lemma advance_while_msg [simp]:
  "advance_while P (l\<lparr>error_message := m\<rparr>) = (advance_while P l)\<lparr>error_message := m\<rparr>"
proof (induction P l rule: advance_while.induct)
  case (1 P l)
  show ?case
  proof (cases "P (peek l) \<and> \<not> is_at_end l")
    case True
    then have "P (peek (l\<lparr>error_message := m\<rparr>)) \<and> \<not> is_at_end (l\<lparr>error_message := m\<rparr>)"
      by simp
    then show ?thesis
      using True "1.IH" by (simp add: advance_while_step)
  next
    case False
    then have "\<not> (P (peek (l\<lparr>error_message := m\<rparr>)) \<and> \<not> is_at_end (l\<lparr>error_message := m\<rparr>))"
      by simp
    then show ?thesis
      using False by (simp add: advance_while_stop)
  qed
qed

lemma advance_upto_msg [simp]:
  "advance_upto n P (l\<lparr>error_message := m\<rparr>) = (advance_upto n P l)\<lparr>error_message := m\<rparr>"
  by (induction n arbitrary: l) simp_all

lemma skip_block_comment_msg [simp]:
  "skip_block_comment (l\<lparr>error_message := m\<rparr>) = (skip_block_comment l)\<lparr>error_message := m\<rparr>"
proof (induction l rule: skip_block_comment.induct)
  case (1 l)
  show ?case
  proof (cases "is_at_end l")
    case True
    then show ?thesis by (simp add: skip_block_comment_end)
  next
    case ne: False
    show ?thesis
    proof (cases "peek l = CHR ''*'' \<and> peek_next l = CHR ''/''")
      case True
      then show ?thesis using ne by (simp add: skip_block_comment_close)
    next
      case False
      then show ?thesis
        using ne "1.IH" by (simp add: skip_block_comment_step)
    qed
  qed
qed

lemma skip_whitespace_msg [simp]:
  "skip_whitespace (l\<lparr>error_message := m\<rparr>) = (skip_whitespace l)\<lparr>error_message := m\<rparr>"
proof (induction l rule: skip_whitespace.induct)
  case (1 l)
  note IH = "1.IH"
  let ?l' = "l\<lparr>error_message := m\<rparr>"
  show ?case
  proof (cases "is_at_end l")
    case True
    then show ?thesis by (simp add: skip_whitespace_end)
  next
    case ne: False
    consider (ws) "peek l = CHR '' '' \<or> peek l = CHR 0x0D \<or> peek l = CHR 0x09"
      | (lc) "\<not> (peek l = CHR '' '' \<or> peek l = CHR 0x0D \<or> peek l = CHR 0x09)"
             "peek l = CHR ''/'' \<and> peek_next l = CHR ''/''"
      | (bc) "\<not> (peek l = CHR '' '' \<or> peek l = CHR 0x0D \<or> peek l = CHR 0x09)"
             "\<not> (peek l = CHR ''/'' \<and> peek_next l = CHR ''/'')"
             "peek l = CHR ''/'' \<and> peek_next l = CHR ''*''"
      | (other) "\<not> (peek l = CHR '' '' \<or> peek l = CHR 0x0D \<or> peek l = CHR 0x09)"
             "\<not> (peek l = CHR ''/'' \<and> peek_next l = CHR ''/'')"
             "\<not> (peek l = CHR ''/'' \<and> peek_next l = CHR ''*'')"
      by blast
    then show ?thesis
    proof cases
      case ws
      have a: "skip_whitespace l = skip_whitespace (snd (advance l))"
        using ws ne by (subst skip_whitespace.simps) (simp add: Let_def)
      have b: "skip_whitespace ?l' = skip_whitespace (snd (advance ?l'))"
        using ws ne by (subst skip_whitespace.simps) (simp add: Let_def)
      show ?thesis
        using a b IH(1) [OF ne refl ws] by simp
    next
      case lc
      have a: "skip_whitespace l = skip_whitespace (advance_while (\<lambda>c. c \<noteq> NEWLINE_CHAR) l)"
        using lc ne by (subst skip_whitespace.simps) (simp add: Let_def)
      have b: "skip_whitespace ?l' = skip_whitespace (advance_while (\<lambda>c. c \<noteq> NEWLINE_CHAR) ?l')"
        using lc ne by (subst skip_whitespace.simps) (simp add: Let_def)
      show ?thesis
        using a b IH(2) [OF ne refl lc] by simp
    next
      case bc
      have a: "skip_whitespace l
                 = skip_whitespace (skip_block_comment (snd (advance (snd (advance l)))))"
        using bc ne by (subst skip_whitespace.simps) (simp add: Let_def)
      have b: "skip_whitespace ?l'
                 = skip_whitespace (skip_block_comment (snd (advance (snd (advance ?l')))))"
        using bc ne by (subst skip_whitespace.simps) (simp add: Let_def)
      show ?thesis
        using a b IH(3) [OF ne refl bc] by simp
    next
      case other
      have a: "skip_whitespace l = l"
        using other ne by (subst skip_whitespace.simps) (auto simp: Let_def)
      have b: "skip_whitespace ?l' = ?l'"
        using other ne by (subst skip_whitespace.simps) (auto simp: Let_def)
      show ?thesis using a b by simp
    qed
  qed
qed

lemma string_step_msg [simp]:
  "string_step (l\<lparr>error_message := m\<rparr>) = (string_step l)\<lparr>error_message := m\<rparr>"
  by (simp add: string_step_def Let_def)

lemma string_loop_msg [simp]:
  "string_loop (l\<lparr>error_message := m\<rparr>) = (string_loop l)\<lparr>error_message := m\<rparr>"
proof (induction l rule: string_loop.induct)
  case (1 l)
  show ?case
  proof (cases "peek l \<noteq> DQUOTE \<and> \<not> is_at_end l")
    case True
    then have "peek (l\<lparr>error_message := m\<rparr>) \<noteq> DQUOTE \<and> \<not> is_at_end (l\<lparr>error_message := m\<rparr>)"
      by simp
    then show ?thesis
      using True "1.IH" by (simp add: string_loop_step)
  next
    case False
    then have "\<not> (peek (l\<lparr>error_message := m\<rparr>) \<noteq> DQUOTE \<and> \<not> is_at_end (l\<lparr>error_message := m\<rparr>))"
      by simp
    then show ?thesis
      using False by (simp add: string_loop_stop)
  qed
qed

lemma number_scan_msg:
  "number_scan (l\<lparr>error_message := m\<rparr>)
     = (fst (number_scan l), fst (snd (number_scan l)),
        (snd (snd (number_scan l)))\<lparr>error_message := m\<rparr>)"
proof (cases "peek l = CHR ''0'' \<and> \<not> is_at_end l")
  case True
  then show ?thesis
    by (simp add: number_scan_def Let_def)
next
  case False
  then have c: "(peek l = CHR ''0'' \<and> \<not> is_at_end l) = False"
    by simp
  show ?thesis
  proof (cases "peek (advance_while isdigit l) = CHR ''.''
                \<and> isdigit (peek_next (advance_while isdigit l))")
    case True
    then show ?thesis
      by (simp add: number_scan_def Let_def c)
  next
    case f2: False
    then have d: "(peek (advance_while isdigit l) = CHR ''.''
                \<and> isdigit (peek_next (advance_while isdigit l))) = False"
      by simp
    show ?thesis
      by (simp add: number_scan_def Let_def c d)
  qed
qed

lemma number_msg:
  "number (l\<lparr>error_message := m\<rparr>) = (fst (number l), (snd (number l))\<lparr>error_message := m\<rparr>)"
  by (simp add: number_def number_scan_msg Let_def case_prod_beta make_token_def)

lemma identifier_token_msg:
  "identifier_token (l\<lparr>error_message := m\<rparr>)
     = (fst (identifier_token l), (snd (identifier_token l))\<lparr>error_message := m\<rparr>)"
  by (simp add: identifier_token_def Let_def make_token_def)

lemma match_token_msg:
  "match_token (l\<lparr>error_message := m\<rparr>) c x y
     = (fst (match_token l c x y), (snd (match_token l c x y))\<lparr>error_message := m\<rparr>)"
  by (simp add: match_token_def case_prod_beta)

lemma msg_blindD:
  "msg_blind g \<Longrightarrow>
   g (l\<lparr>error_message := m\<rparr>)
     = (fst (g l),
        if tok_type (fst (g l)) = TOKEN_ERROR then snd (g l)
        else (snd (g l))\<lparr>error_message := m\<rparr>)"
  by (simp add: msg_blind_def)

lemma msg_blind_make: "msg_blind (\<lambda>l. (make_token l ty, l))" if "ty \<noteq> TOKEN_ERROR"
  using that by (simp add: msg_blind_def make_token_def)

lemma msg_blind_error: "msg_blind (\<lambda>l. error_token l msg)"
  by (simp add: msg_blind_def)

lemma number_not_error: "tok_type (fst (number l)) \<noteq> TOKEN_ERROR"
  by (simp add: number_def Let_def case_prod_beta make_token_def)

lemma msg_blind_number: "msg_blind number"
  by (simp add: msg_blind_def number_msg number_not_error)

lemma identifier_token_not_error: "tok_type (fst (identifier_token l)) \<noteq> TOKEN_ERROR"
  using check_keyword_not_special by (simp add: identifier_token_def Let_def make_token_def)

lemma msg_blind_identifier_token: "msg_blind identifier_token"
  by (simp add: msg_blind_def identifier_token_msg identifier_token_not_error)

lemma msg_blind_match_token:
  "x \<noteq> TOKEN_ERROR \<Longrightarrow> y \<noteq> TOKEN_ERROR \<Longrightarrow> msg_blind (\<lambda>l. match_token l c x y)"
  by (simp add: msg_blind_def match_token_msg match_token_type)

lemma msg_blind_string_token: "msg_blind string_token"
  by (simp add: msg_blind_def string_token_def Let_def make_token_def)

lemma msg_blind_char_literal: "msg_blind char_literal"
  by (simp add: msg_blind_def char_literal_def Let_def case_prod_beta make_token_def)

lemma string_token_msg:
  "string_token (l\<lparr>error_message := m\<rparr>)
     = (fst (string_token l),
        if tok_type (fst (string_token l)) = TOKEN_ERROR then snd (string_token l)
        else (snd (string_token l))\<lparr>error_message := m\<rparr>)"
  by (rule msg_blindD [OF msg_blind_string_token])

lemma char_literal_msg:
  "char_literal (l\<lparr>error_message := m\<rparr>)
     = (fst (char_literal l),
        if tok_type (fst (char_literal l)) = TOKEN_ERROR then snd (char_literal l)
        else (snd (char_literal l))\<lparr>error_message := m\<rparr>)"
  by (rule msg_blindD [OF msg_blind_char_literal])

lemma msg_blind_token_switch: "msg_blind (token_switch c)"
  by (simp add: msg_blind_def token_switch_def Let_def case_prod_beta match_token_msg
      match_token_type string_token_msg char_literal_msg make_token_def)

lemma lexer_next_token_scan:
  "lexer_next_token l
     = scan_token ((skip_whitespace l)\<lparr>start := current (skip_whitespace l),
                     tokens_processed := tokens_processed (skip_whitespace l) + 1\<rparr>)"
  by (simp add: lexer_next_token_def scan_token_def Let_def)

lemma msg_blind_scan_token: "msg_blind scan_token"
  by (simp add: msg_blind_def scan_token_def Let_def case_prod_beta make_token_def
      identifier_token_msg identifier_token_not_error number_msg number_not_error
      msg_blindD [OF msg_blind_token_switch])

lemma msg_blind_lexer_next_token: "msg_blind lexer_next_token"
  unfolding msg_blind_def
proof (intro allI)
  fix l m
  let ?X = "(skip_whitespace l)\<lparr>start := current (skip_whitespace l),
              tokens_processed := tokens_processed (skip_whitespace l) + 1\<rparr>"
  let ?l' = "l\<lparr>error_message := m\<rparr>"
  have rec: "(skip_whitespace ?l')\<lparr>start := current (skip_whitespace ?l'),
                 tokens_processed := tokens_processed (skip_whitespace ?l') + 1\<rparr>
               = ?X\<lparr>error_message := m\<rparr>"
    by (rule Lexer.equality) simp_all
  have "lexer_next_token (l\<lparr>error_message := m\<rparr>) = scan_token (?X\<lparr>error_message := m\<rparr>)"
    by (subst lexer_next_token_scan) (rule arg_cong [OF rec])
  also have "\<dots> = (fst (scan_token ?X),
                    if tok_type (fst (scan_token ?X)) = TOKEN_ERROR then snd (scan_token ?X)
                    else (snd (scan_token ?X))\<lparr>error_message := m\<rparr>)"
    by (rule msg_blindD [OF msg_blind_scan_token])
  finally show "lexer_next_token (l\<lparr>error_message := m\<rparr>)
                  = (fst (lexer_next_token l),
                     if tok_type (fst (lexer_next_token l)) = TOKEN_ERROR
                     then snd (lexer_next_token l)
                     else (snd (lexer_next_token l))\<lparr>error_message := m\<rparr>)"
    by (simp only: lexer_next_token_scan [symmetric])
qed

lemma lexer_next_token_keeps_message:
  assumes "tok_type (fst (lexer_next_token l)) \<noteq> TOKEN_ERROR"
  shows "error_message (snd (lexer_next_token l)) = error_message l"
proof -
  have "lexer_next_token (l\<lparr>error_message := error_message l\<rparr>)
          = (fst (lexer_next_token l), (snd (lexer_next_token l))\<lparr>error_message := error_message l\<rparr>)"
    using assms msg_blindD [OF msg_blind_lexer_next_token, where l = l and m = "error_message l"]
    by simp
  then have "snd (lexer_next_token l) = (snd (lexer_next_token l))\<lparr>error_message := error_message l\<rparr>"
    by (simp add: prod_eq_iff)
  then have "error_message (snd (lexer_next_token l))
               = error_message ((snd (lexer_next_token l))\<lparr>error_message := error_message l\<rparr>)"
    by simp
  then show ?thesis by simp
qed

lemma lexer_peek_token_eq:
  "lexer_peek_token l
     = (fst (lexer_next_token l), l\<lparr>error_message := error_message (snd (lexer_next_token l))\<rparr>)"
proof -
  have src: "source (snd (lexer_next_token l)) = source l"
    using forward_lexer_next_token [of l] by (simp add: forward_def)
  have "(snd (lexer_next_token l))\<lparr>current := current l, start := start l, pos := pos l,
            tokens_processed := tokens_processed l, has_error := has_error l\<rparr>
          = l\<lparr>error_message := error_message (snd (lexer_next_token l))\<rparr>"
    by (rule Lexer.equality) (simp_all add: src)
  then show ?thesis
    by (simp add: lexer_peek_token_def Let_def case_prod_beta)
qed

lemma next_after_peek: "lexer_next_token (snd (lexer_peek_token l)) = lexer_next_token l"
proof -
  let ?m = "error_message (snd (lexer_next_token l))"
  have "lexer_next_token (l\<lparr>error_message := ?m\<rparr>)
          = (fst (lexer_next_token l),
             if tok_type (fst (lexer_next_token l)) = TOKEN_ERROR then snd (lexer_next_token l)
             else (snd (lexer_next_token l))\<lparr>error_message := ?m\<rparr>)"
    by (rule msg_blindD [OF msg_blind_lexer_next_token])
  then have "lexer_next_token (l\<lparr>error_message := ?m\<rparr>) = lexer_next_token l"
    by simp
  then show ?thesis
    by (simp add: lexer_peek_token_eq)
qed

lemma string_token_error_message:
  "tok_type (fst (string_token l)) = TOKEN_ERROR \<longrightarrow>
   error_message (snd (string_token l)) \<in> lexical_error_messages"
  by (simp add: string_token_def Let_def make_token_def lexical_error_messages_def
      error_token_def)

lemma char_literal_error_message:
  "tok_type (fst (char_literal l)) = TOKEN_ERROR \<longrightarrow>
   error_message (snd (char_literal l)) \<in> lexical_error_messages"
  by (simp add: char_literal_def Let_def case_prod_beta make_token_def
      lexical_error_messages_def error_token_def)

lemma error_token_known_message:
  "msg \<in> lexical_error_messages \<Longrightarrow>
   error_message (snd (error_token l msg)) \<in> lexical_error_messages"
  by (auto simp: error_token_def lexical_error_messages_def)

lemma known_messages:
  "''Unexpected character'' \<in> lexical_error_messages"
  "''Invalid token '' @ [SQUOTE] @ ''..'' @ [SQUOTE] \<in> lexical_error_messages"
  by (simp_all add: lexical_error_messages_def)

lemma token_switch_error_message:
  "tok_type (fst (token_switch c l)) = TOKEN_ERROR \<longrightarrow>
   error_message (snd (token_switch c l)) \<in> lexical_error_messages"
  using string_token_error_message [of l] char_literal_error_message [of l]
  by (simp add: token_switch_def Let_def case_prod_beta make_token_def match_token_type
      error_token_known_message known_messages del: append.simps)

lemma scan_token_error_message:
  "tok_type (fst (scan_token l)) = TOKEN_ERROR \<longrightarrow>
   error_message (snd (scan_token l)) \<in> lexical_error_messages"
  using identifier_token_not_error number_not_error token_switch_error_message
  by (simp add: scan_token_def Let_def case_prod_beta make_token_def)

lemma lexer_next_token_error_message:
  "tok_type (fst (lexer_next_token l)) = TOKEN_ERROR \<Longrightarrow>
   error_message (snd (lexer_next_token l)) \<in> lexical_error_messages"
  using scan_token_error_message by (simp add: lexer_next_token_scan)

section \<open>The precedence table, row by row\<close>














section \<open>An error once recorded stays recorded\<close>

lemma had_error_parser_error: "had_error p \<Longrightarrow> had_error (parser_error p message)"
  by (simp add: parser_error_def)

lemma had_error_skip_error_tokens: "had_error p \<Longrightarrow> had_error (skip_error_tokens p)"
proof (induction p rule: skip_error_tokens.induct)
  case (1 p)
  show ?case
  proof (cases "tok_type (p_current p) = TOKEN_ERROR")
    case False
    then show ?thesis using "1.prems" by (simp add: skip_error_tokens_id)
  next
    case True
    let ?p1 = "parser_error p ''Lexical error''"
    obtain t l where tl: "lexer_next_token (lexer ?p1) = (t, l)"
      by (cases "lexer_next_token (lexer ?p1)")
    have unf: "skip_error_tokens p = skip_error_tokens (?p1\<lparr>p_current := t, lexer := l\<rparr>)"
      using True tl by (subst skip_error_tokens.simps) (simp add: Let_def)
    have "had_error (?p1\<lparr>p_current := t, lexer := l\<rparr>)"
      using "1.prems" by (simp add: had_error_parser_error)
    then have "had_error (skip_error_tokens (?p1\<lparr>p_current := t, lexer := l\<rparr>))"
      using "1.IH" [OF True refl refl tl [symmetric]] by simp
    then show ?thesis using unf by simp
  qed
qed

lemma had_error_parser_advance: "had_error p \<Longrightarrow> had_error (parser_advance p)"
  by (simp add: parser_advance_def Let_def case_prod_beta had_error_skip_error_tokens)

lemma had_error_synchronize_loop: "had_error p \<Longrightarrow> had_error (synchronize_loop p)"
proof (induction p rule: synchronize_loop.induct)
  case (1 p)
  show ?case
  proof (cases "tok_type (p_current p) \<noteq> TOKEN_EOF
                \<and> tok_type (p_previous p) \<noteq> TOKEN_SEMICOLON
                \<and> tok_type (p_current p) \<notin> {TOKEN_CLASS, TOKEN_FUNCTION, TOKEN_VAR, TOKEN_FOR,
                                                TOKEN_IF, TOKEN_WHILE, TOKEN_RETURN}")
    case True
    then have unf: "synchronize_loop p = synchronize_loop (parser_advance p)"
      by (subst synchronize_loop.simps) simp
    have "had_error (synchronize_loop (parser_advance p))"
      using "1.IH" True had_error_parser_advance [OF "1.prems"] by simp
    then show ?thesis using unf by simp
  next
    case False
    then have "synchronize_loop p = p"
      by (subst synchronize_loop.simps) auto
    then show ?thesis using "1.prems" by simp
  qed
qed

lemma had_error_synchronize: "had_error p \<Longrightarrow> had_error (synchronize p)"
  by (simp add: synchronize_def had_error_synchronize_loop)

lemma parse_loop_after_error:
  "had_error p \<Longrightarrow> parse_loop (Suc n) array statements p = Inr (statements, p)"
  by simp

lemma parse_loop_last_iteration:
  assumes "\<not> had_error p" "\<not> check p TOKEN_EOF" "\<not> check p TOKEN_NEWLINE"
    and "top_declaration (Suc n) p = Inr (decl, p2)" "had_error p2"
    and "decl \<noteq> None \<longrightarrow> array \<and> length statements < 1000"
  shows "parse_loop (Suc (Suc n)) array statements p
           = Inr (statements @ (case decl of None \<Rightarrow> [] | Some d \<Rightarrow> [d]),
                  if panic_mode p2 then synchronize p2 else p2)"
proof -
  let ?q = "if panic_mode p2 then synchronize p2 else p2"
  have q: "had_error ?q"
    using assms(5) by (simp add: had_error_synchronize)
  have stop: "parse_loop (Suc n) array sts ?q = Inr (sts, ?q)" for sts
    using q by (rule parse_loop_after_error)
  have m: "parser_match p TOKEN_NEWLINE = (False, p)"
    using assms(3) by (simp add: parser_match_def)
  show ?thesis
  proof (cases decl)
    case None
    have "parse_loop (Suc (Suc n)) array statements p = parse_loop (Suc n) array statements ?q"
      using assms(1,2,4) m None by (subst parse_loop.simps) simp
    then show ?thesis using stop None by simp
  next
    case (Some d)
    then have ok: "array" "length statements < 1000"
      using assms(6) by simp_all
    have "parse_loop (Suc (Suc n)) array statements p
            = parse_loop (Suc n) array (statements @ [d]) ?q"
      using assms(1,2,4) m Some ok by (subst parse_loop.simps) simp
    then show ?thesis using stop Some by simp
  qed
qed

section \<open>Null pointers the parser does not test\<close>

text \<open>
  \<^verbatim>\<open>assignment\<close> reads the kind of its left operand and writes the members of the node
  \<^verbatim>\<open>ast_allocate\<close> returns, and \<^verbatim>\<open>expression_statement\<close> writes the member of its node, each
  without a test for the null pointer: \<^verbatim>\<open>= 1;\<close> has no left operand, and a full arena gives
  no node. The node creators test the pointer, so a \<^verbatim>\<open>return\<close> statement that finds the
  arena full is the null pointer, which \<^verbatim>\<open>parser_parse\<close> does not append.
\<close>

lemma ast_allocate_full:
  "ARENA_SIZE < arena_used p + sizeof_ASTNode \<Longrightarrow> ast_allocate p = (None, p)"
  by (simp add: ast_allocate_def arena_alloc_def)

lemma assignment_without_target:
  "parse_source 40 ''= 1;'' fname prev0 = Inl NullDereference"
  by code_simp

lemma expression_statement_full_arena:
  "expression_statement 20
     ((parser_create (lexer_create ''1;'' fname) prev0)\<lparr>arena_used := ARENA_SIZE\<rparr>)
     = Inl NullDereference"
  by code_simp

lemma return_statement_full_arena:
  "map_sum id fst
     (top_declaration 20
        ((parser_create (lexer_create ''return;'' fname) prev0)\<lparr>arena_used := ARENA_SIZE\<rparr>))
     = Inr None"
  by code_simp

section \<open>Properties\<close>

text \<open>
  Claim C1 (a literal that starts with \<^verbatim>\<open>0x\<close>, \<^verbatim>\<open>0b\<close> or \<^verbatim>\<open>0o\<close> is one INTEGER token with the value of
  its digits in base 16, 2 or 8; \<^verbatim>\<open>0xFF + 0b10\<close> parses to \<open>Binary(+, 255, 2)\<close>). The code at
  this input: \<^verbatim>\<open>lexer_next_token\<close> has consumed the \<^verbatim>\<open>0\<close> when \<^verbatim>\<open>number\<close> tests \<^verbatim>\<open>peek\<close> for
  \<^verbatim>\<open>'0'\<close>, so the prefix is not seen. The tokens are INTEGER \<^verbatim>\<open>0\<close> of value 0, IDENTIFIER
  \<^verbatim>\<open>xFF\<close>, PLUS, INTEGER \<^verbatim>\<open>0\<close> of value 0, IDENTIFIER \<^verbatim>\<open>b10\<close>, EOF; the parser returns the
  expression statement of the literal 0 and has recorded an error.
\<close>

theorem hex_literal_lexed_as_zero_and_identifier:
  "tokens_upto 10 (lexer_create ''0xFF + 0b10'' fname)
     = [\<lparr>tok_type = TOKEN_INTEGER, tok_start = 0, tok_length = 1,
         tok_pos = \<lparr>line = 1, column = 1, filename = fname\<rparr>, tok_value = Int_value 0\<rparr>,
        \<lparr>tok_type = TOKEN_IDENTIFIER, tok_start = 1, tok_length = 3,
         tok_pos = \<lparr>line = 1, column = 2, filename = fname\<rparr>, tok_value = Unset\<rparr>,
        \<lparr>tok_type = TOKEN_PLUS, tok_start = 5, tok_length = 1,
         tok_pos = \<lparr>line = 1, column = 6, filename = fname\<rparr>, tok_value = Unset\<rparr>,
        \<lparr>tok_type = TOKEN_INTEGER, tok_start = 7, tok_length = 1,
         tok_pos = \<lparr>line = 1, column = 8, filename = fname\<rparr>, tok_value = Int_value 0\<rparr>,
        \<lparr>tok_type = TOKEN_IDENTIFIER, tok_start = 8, tok_length = 3,
         tok_pos = \<lparr>line = 1, column = 9, filename = fname\<rparr>, tok_value = Unset\<rparr>,
        \<lparr>tok_type = TOKEN_EOF, tok_start = 11, tok_length = 0,
         tok_pos = \<lparr>line = 1, column = 12, filename = fname\<rparr>, tok_value = Unset\<rparr>]
   \<and> parse_shape 40 ''0xFF + 0b10'' fname prev0
     = Inr (Some (AST_PROGRAM no_pos [AST_EXPRESSION_STMT no_pos (int_literal 0)]))
   \<and> map_sum id (\<lambda>r. had_error (snd r)) (parse_source 40 ''0xFF + 0b10'' fname prev0) = Inr True"
proof (intro conjI)
  show "tokens_upto 10 (lexer_create ''0xFF + 0b10'' fname)
     = [\<lparr>tok_type = TOKEN_INTEGER, tok_start = 0, tok_length = 1,
         tok_pos = \<lparr>line = 1, column = 1, filename = fname\<rparr>, tok_value = Int_value 0\<rparr>,
        \<lparr>tok_type = TOKEN_IDENTIFIER, tok_start = 1, tok_length = 3,
         tok_pos = \<lparr>line = 1, column = 2, filename = fname\<rparr>, tok_value = Unset\<rparr>,
        \<lparr>tok_type = TOKEN_PLUS, tok_start = 5, tok_length = 1,
         tok_pos = \<lparr>line = 1, column = 6, filename = fname\<rparr>, tok_value = Unset\<rparr>,
        \<lparr>tok_type = TOKEN_INTEGER, tok_start = 7, tok_length = 1,
         tok_pos = \<lparr>line = 1, column = 8, filename = fname\<rparr>, tok_value = Int_value 0\<rparr>,
        \<lparr>tok_type = TOKEN_IDENTIFIER, tok_start = 8, tok_length = 3,
         tok_pos = \<lparr>line = 1, column = 9, filename = fname\<rparr>, tok_value = Unset\<rparr>,
        \<lparr>tok_type = TOKEN_EOF, tok_start = 11, tok_length = 0,
         tok_pos = \<lparr>line = 1, column = 12, filename = fname\<rparr>, tok_value = Unset\<rparr>]"
    by code_simp
  show "parse_shape 40 ''0xFF + 0b10'' fname prev0
     = Inr (Some (AST_PROGRAM no_pos [AST_EXPRESSION_STMT no_pos (int_literal 0)]))"
    by code_simp
  show "map_sum id (\<lambda>r. had_error (snd r)) (parse_source 40 ''0xFF + 0b10'' fname prev0) = Inr True"
    by code_simp
qed

text \<open>
  Claim C2, as the code has it. The loop of \<^verbatim>\<open>parser_parse\<close> runs while \<^verbatim>\<open>had_error\<close> is
  false. So, for every parser state: entered with the flag set, the loop returns the
  statements it has; and when the declaration parsed in one turn of the loop leaves the flag
  set, that turn is the last: the declaration is appended if it is not null (the array of
  statements being there, with room), \<^verbatim>\<open>synchronize\<close> runs if the parser is in panic mode,
  and the loop returns. On
  \<^verbatim>\<open>int x 5;\<close>, newline, \<^verbatim>\<open>int y = 7;\<close> the first statement records
  \<^verbatim>\<open>Expected ';' after variable declaration\<close> at the \<^verbatim>\<open>5\<close> (line 1, column 7) and is appended
  as the declaration of \<^verbatim>\<open>x\<close> without initializer; the program returned has that one
  statement, \<^verbatim>\<open>had_error\<close> is true and the second line is not parsed: on this input the
  parser is left out of panic mode with the \<^verbatim>\<open>;\<close> at offset 7 as previous token and the
  NEWLINE at offset 8 as current token.
\<close>

theorem parse_stops_at_first_error:
  "(had_error p \<longrightarrow> parse_loop (Suc n) array statements p = Inr (statements, p))
   \<and> (\<not> had_error p \<and> \<not> check p TOKEN_EOF \<and> \<not> check p TOKEN_NEWLINE
        \<and> top_declaration (Suc n) p = Inr (decl, p2) \<and> had_error p2
        \<and> (decl \<noteq> None \<longrightarrow> array \<and> length statements < 1000) \<longrightarrow>
      parse_loop (Suc (Suc n)) array statements p
        = Inr (statements @ (case decl of None \<Rightarrow> [] | Some d \<Rightarrow> [d]),
               if panic_mode p2 then synchronize p2 else p2))
   \<and> map_sum id fst (parse_source 40 s5_source fname prev0)
     = Inr (Some (AST_PROGRAM (tok_pos prev0)
              [AST_VAR_DECLARATION \<lparr>line = 1, column = 5, filename = fname\<rparr>
                 TOKEN_INT (Name ''x'') None]))
   \<and> map_sum id (\<lambda>r. (had_error (snd r), panic_mode (snd r), p_error_message (snd r),
                        tok_type (p_current (snd r)), tok_start (p_current (snd r)),
                        tok_type (p_previous (snd r)), tok_start (p_previous (snd r))))
        (parse_source 40 s5_source fname prev0)
     = Inr (True, False,
            ''Error at line 1, column 7: Expected '' @ [SQUOTE] @ '';'' @ [SQUOTE]
              @ '' after variable declaration'',
            TOKEN_NEWLINE, 8, TOKEN_SEMICOLON, 7)"
proof (intro conjI impI)
  assume "had_error p"
  then show "parse_loop (Suc n) array statements p = Inr (statements, p)"
    by (rule parse_loop_after_error)
next
  assume "\<not> had_error p \<and> \<not> check p TOKEN_EOF \<and> \<not> check p TOKEN_NEWLINE
        \<and> top_declaration (Suc n) p = Inr (decl, p2) \<and> had_error p2
        \<and> (decl \<noteq> None \<longrightarrow> array \<and> length statements < 1000)"
  then show "parse_loop (Suc (Suc n)) array statements p
        = Inr (statements @ (case decl of None \<Rightarrow> [] | Some d \<Rightarrow> [d]),
               if panic_mode p2 then synchronize p2 else p2)"
    using parse_loop_last_iteration [of p n decl p2 array statements] by blast
next
  show "map_sum id fst (parse_source 40 s5_source fname prev0)
     = Inr (Some (AST_PROGRAM (tok_pos prev0)
              [AST_VAR_DECLARATION \<lparr>line = 1, column = 5, filename = fname\<rparr>
                 TOKEN_INT (Name ''x'') None]))"
    by code_simp
next
  show "map_sum id (\<lambda>r. (had_error (snd r), panic_mode (snd r), p_error_message (snd r),
                        tok_type (p_current (snd r)), tok_start (p_current (snd r)),
                        tok_type (p_previous (snd r)), tok_start (p_previous (snd r))))
        (parse_source 40 s5_source fname prev0)
     = Inr (True, False,
            ''Error at line 1, column 7: Expected '' @ [SQUOTE] @ '';'' @ [SQUOTE]
              @ '' after variable declaration'',
            TOKEN_NEWLINE, 8, TOKEN_SEMICOLON, 7)"
    by code_simp
qed

theorem parse_stops_at_first_error_witness:
  "had_error ((parser_create (lexer_create ''x;'' ''t.shay'') blank_token)\<lparr>had_error := True\<rparr>)
   \<and> parse_loop (Suc 0) True []
        ((parser_create (lexer_create ''x;'' ''t.shay'') blank_token)\<lparr>had_error := True\<rparr>)
     = Inr ([], (parser_create (lexer_create ''x;'' ''t.shay'') blank_token)\<lparr>had_error := True\<rparr>)
   \<and> \<not> had_error (parser_create (lexer_create s5_source ''t.shay'') blank_token)
   \<and> \<not> check (parser_create (lexer_create s5_source ''t.shay'') blank_token) TOKEN_EOF
   \<and> \<not> check (parser_create (lexer_create s5_source ''t.shay'') blank_token) TOKEN_NEWLINE
   \<and> map_sum id (\<lambda>r. (fst r, had_error (snd r), panic_mode (snd r)))
        (top_declaration (Suc 38)
           (parser_create (lexer_create s5_source ''t.shay'') blank_token))
     = Inr (Some (AST_VAR_DECLARATION \<lparr>line = 1, column = 5, filename = ''t.shay''\<rparr>
                    TOKEN_INT (Name ''x'') None), True, True)
   \<and> map_sum id fst
        (parse_loop (Suc (Suc 38)) True []
           (parser_create (lexer_create s5_source ''t.shay'') blank_token))
     = Inr [AST_VAR_DECLARATION \<lparr>line = 1, column = 5, filename = ''t.shay''\<rparr>
              TOKEN_INT (Name ''x'') None]"
proof -
  let ?X = "(parser_create (lexer_create ''x;'' ''t.shay'') blank_token)\<lparr>had_error := True\<rparr>"
  let ?P = "parser_create (lexer_create s5_source ''t.shay'') blank_token"
  let ?D = "AST_VAR_DECLARATION \<lparr>line = 1, column = 5, filename = ''t.shay''\<rparr>
              TOKEN_INT (Name ''x'') None"
  let ?P2 = "snd (projr (top_declaration (Suc 38) ?P))"
  have h0: "had_error ?X"
    by simp
  have h1: "\<not> had_error ?P"
    by code_simp
  have h2: "\<not> check ?P TOKEN_EOF"
    by code_simp
  have h3: "\<not> check ?P TOKEN_NEWLINE"
    by code_simp
  have h4: "top_declaration (Suc 38) ?P = Inr (Some ?D, ?P2)"
    by code_simp
  have h5: "had_error ?P2"
    by code_simp
  have a: "parse_loop (Suc 0) True [] ?X = Inr ([], ?X)"
    using parse_stops_at_first_error [of ?X 0 True "[]"] h0 by blast
  have "parse_loop (Suc (Suc 38)) True [] ?P
          = Inr ([] @ (case Some ?D of None \<Rightarrow> [] | Some d \<Rightarrow> [d]),
                 if panic_mode ?P2 then synchronize ?P2 else ?P2)"
    using parse_stops_at_first_error [of ?P 38 True "[]" "Some ?D" ?P2]
      h1 h2 h3 h4 h5 by simp
  then have b: "map_sum id fst (parse_loop (Suc (Suc 38)) True [] ?P) = Inr [?D]"
    by simp
  have c: "map_sum id (\<lambda>r. (fst r, had_error (snd r), panic_mode (snd r)))
             (top_declaration (Suc 38) ?P) = Inr (Some ?D, True, True)"
    by code_simp
  show ?thesis
    using h0 a h1 h2 h3 b c by blast
qed

text \<open>
  Claim C2 as stated (after the error the second statement is parsed as the declaration of
  \<^verbatim>\<open>y\<close> with the literal 7, and is the one statement of the program) fails on that input: the
  one statement of the program is the declaration of \<^verbatim>\<open>x\<close> without initializer.
\<close>

theorem resume_after_error_counterexample:
  "map_sum id fst (parse_source 40 s5_source ''t.shay'' blank_token)
     = Inr (Some (AST_PROGRAM \<lparr>line = 0, column = 0, filename = []\<rparr>
              [AST_VAR_DECLARATION \<lparr>line = 1, column = 5, filename = ''t.shay''\<rparr>
                 TOKEN_INT (Name ''x'') None]))
   \<and> parse_shape 40 s5_source ''t.shay'' blank_token
     \<noteq> Inr (Some (AST_PROGRAM no_pos
              [AST_VAR_DECLARATION no_pos TOKEN_INT (Name ''y'') (int_literal 7)]))"
  by code_simp

text \<open>
  Claim C3. For every lexer state, \<^verbatim>\<open>lexer_peek_token\<close> returns the token \<^verbatim>\<open>lexer_next_token\<close>
  would return (kind, start, length, position, value); \<^verbatim>\<open>lexer_next_token\<close> after the peek
  returns the same token and leaves the same lexer state as without the peek; so every
  later token is the same too. (The value of a token that is no number is not written by
  the code; the model compares it as \<open>Unset\<close>.)
\<close>

theorem peek_then_next_same_token:
  "fst (lexer_peek_token l) = fst (lexer_next_token l)
   \<and> lexer_next_token (snd (lexer_peek_token l)) = lexer_next_token l
   \<and> (\<forall>n. nth_token n (snd (lexer_peek_token l)) = nth_token n l)"
proof (intro conjI allI)
  show "fst (lexer_peek_token l) = fst (lexer_next_token l)"
    by (simp add: lexer_peek_token_eq)
  show a: "lexer_next_token (snd (lexer_peek_token l)) = lexer_next_token l"
    by (rule next_after_peek)
  fix n
  show "nth_token n (snd (lexer_peek_token l)) = nth_token n l"
    using a by (cases n) (simp_all add: nth_token_def)
qed



text \<open>
  Claim C5, as the code has it. \<^verbatim>\<open>a = b = 1;\<close> parses without error to the statement of
  \<open>Assignment(a, Assignment(b, Literal 1))\<close>. And for every parser state, when the left
  operand that \<^verbatim>\<open>logical_or\<close> returned is a node \<open>e\<close>, \<^verbatim>\<open>=\<close> follows and the right-hand side
  has been parsed: if \<open>e\<close> is not an identifier, \<^verbatim>\<open>assignment\<close> returns \<open>e\<close> itself and calls
  \<^verbatim>\<open>parser_error\<close> with \<^verbatim>\<open>Invalid assignment target\<close>, which records the error at the current
  token unless the parser is in panic mode, and then leaves the parser as it is (the
  error is suppressed, as every error in panic mode is); if \<open>e\<close> is an identifier and the
  arena has room for a node, the assignment node is returned.
\<close>

theorem assignment_target_checked_outside_panic_mode:
  "map_sum id fst (parse_source 40 ''a = b = 1;'' fname prev0)
     = Inr (Some (AST_PROGRAM (tok_pos prev0)
         [AST_EXPRESSION_STMT \<lparr>line = 1, column = 10, filename = fname\<rparr>
           (Some (AST_ASSIGNMENT \<lparr>line = 1, column = 9, filename = fname\<rparr>
              (Some (AST_IDENTIFIER \<lparr>line = 1, column = 1, filename = fname\<rparr> (Name ''a'')))
              TOKEN_ASSIGN
              (Some (AST_ASSIGNMENT \<lparr>line = 1, column = 9, filename = fname\<rparr>
                 (Some (AST_IDENTIFIER \<lparr>line = 1, column = 5, filename = fname\<rparr> (Name ''b'')))
                 TOKEN_ASSIGN
                 (Some (AST_LITERAL \<lparr>line = 1, column = 9, filename = fname\<rparr>
                          TOKEN_INTEGER (Lit_int 1)))))))]))
   \<and> map_sum id (\<lambda>r. had_error (snd r)) (parse_source 40 ''a = b = 1;'' fname prev0) = Inr False
   \<and> (parse_rule n Logical_or None p = Inr (Some e, p1) \<and> check p1 TOKEN_ASSIGN
        \<and> parse_rule n Assignment None (parser_advance p1) = Inr (v, p3) \<longrightarrow>
        (\<not> is_identifier e \<longrightarrow>
           parse_rule (Suc n) Assignment None p
             = Inr (Some e, parser_error p3 ''Invalid assignment target''))
        \<and> (\<not> panic_mode p3 \<longrightarrow>
             parser_has_error (parser_error p3 ''Invalid assignment target'')
             \<and> parser_get_error (parser_error p3 ''Invalid assignment target'')
                 = take 255 (''Error at line '' @ show_int (line (tok_pos (p_current p3)))
                             @ '', column '' @ show_int (column (tok_pos (p_current p3)))
                             @ '': Invalid assignment target''))
        \<and> (panic_mode p3 \<longrightarrow> parser_error p3 ''Invalid assignment target'' = p3)
        \<and> (is_identifier e \<and> arena_used p3 + sizeof_ASTNode \<le> ARENA_SIZE \<longrightarrow>
             parse_rule (Suc n) Assignment None p
               = Inr (Some (AST_ASSIGNMENT (tok_pos (p_previous p3)) (Some e) TOKEN_ASSIGN v),
                      p3\<lparr>arena_used := arena_used p3 + sizeof_ASTNode,
                         nodes_created := nodes_created p3 + 1\<rparr>)))"
proof (intro conjI)
  show "map_sum id fst (parse_source 40 ''a = b = 1;'' fname prev0)
     = Inr (Some (AST_PROGRAM (tok_pos prev0)
         [AST_EXPRESSION_STMT \<lparr>line = 1, column = 10, filename = fname\<rparr>
           (Some (AST_ASSIGNMENT \<lparr>line = 1, column = 9, filename = fname\<rparr>
              (Some (AST_IDENTIFIER \<lparr>line = 1, column = 1, filename = fname\<rparr> (Name ''a'')))
              TOKEN_ASSIGN
              (Some (AST_ASSIGNMENT \<lparr>line = 1, column = 9, filename = fname\<rparr>
                 (Some (AST_IDENTIFIER \<lparr>line = 1, column = 5, filename = fname\<rparr> (Name ''b'')))
                 TOKEN_ASSIGN
                 (Some (AST_LITERAL \<lparr>line = 1, column = 9, filename = fname\<rparr>
                          TOKEN_INTEGER (Lit_int 1)))))))]))"
    by code_simp
  show "map_sum id (\<lambda>r. had_error (snd r)) (parse_source 40 ''a = b = 1;'' fname prev0) = Inr False"
    by code_simp
  show "parse_rule n Logical_or None p = Inr (Some e, p1) \<and> check p1 TOKEN_ASSIGN
        \<and> parse_rule n Assignment None (parser_advance p1) = Inr (v, p3) \<longrightarrow>
        (\<not> is_identifier e \<longrightarrow>
           parse_rule (Suc n) Assignment None p
             = Inr (Some e, parser_error p3 ''Invalid assignment target''))
        \<and> (\<not> panic_mode p3 \<longrightarrow>
             parser_has_error (parser_error p3 ''Invalid assignment target'')
             \<and> parser_get_error (parser_error p3 ''Invalid assignment target'')
                 = take 255 (''Error at line '' @ show_int (line (tok_pos (p_current p3)))
                             @ '', column '' @ show_int (column (tok_pos (p_current p3)))
                             @ '': Invalid assignment target''))
        \<and> (panic_mode p3 \<longrightarrow> parser_error p3 ''Invalid assignment target'' = p3)
        \<and> (is_identifier e \<and> arena_used p3 + sizeof_ASTNode \<le> ARENA_SIZE \<longrightarrow>
             parse_rule (Suc n) Assignment None p
               = Inr (Some (AST_ASSIGNMENT (tok_pos (p_previous p3)) (Some e) TOKEN_ASSIGN v),
                      p3\<lparr>arena_used := arena_used p3 + sizeof_ASTNode,
                         nodes_created := nodes_created p3 + 1\<rparr>))"
    by (simp add: assignment_rule_def parser_match_def ast_allocate_def arena_alloc_def
        parser_error_def parser_has_error_def parser_get_error_def)
qed

theorem assignment_target_checked_outside_panic_mode_witness:
  "map_sum id (\<lambda>r. (fst r, parser_has_error (snd r), parser_get_error (snd r)))
     (parse_rule (Suc 20) Assignment None
        (parser_create (lexer_create ''1 = 2;'' ''t.shay'') blank_token))
     = Inr (Some (AST_LITERAL \<lparr>line = 1, column = 1, filename = ''t.shay''\<rparr>
                    TOKEN_INTEGER (Lit_int 1)),
            True, ''Error at line 1, column 6: Invalid assignment target'')
   \<and> map_sum id (\<lambda>r. (fst r, parser_has_error (snd r), parser_get_error (snd r)))
     (parse_rule (Suc 20) Assignment None
        (parser_create (lexer_create ''1 = @ 2;'' ''t.shay'') blank_token))
     = Inr (Some (AST_LITERAL \<lparr>line = 1, column = 1, filename = ''t.shay''\<rparr>
                    TOKEN_INTEGER (Lit_int 1)),
            True, ''Error at line 1, column 6: Lexical error'')
   \<and> map_sum id (\<lambda>r. (fst r, parser_has_error (snd r)))
     (parse_rule (Suc 20) Assignment None
        (parser_create (lexer_create ''a = 1;'' ''t.shay'') blank_token))
     = Inr (Some (AST_ASSIGNMENT \<lparr>line = 1, column = 5, filename = ''t.shay''\<rparr>
                    (Some (AST_IDENTIFIER \<lparr>line = 1, column = 1, filename = ''t.shay''\<rparr>
                             (Name ''a'')))
                    TOKEN_ASSIGN
                    (Some (AST_LITERAL \<lparr>line = 1, column = 5, filename = ''t.shay''\<rparr>
                             TOKEN_INTEGER (Lit_int 1)))),
            False)"
proof (intro conjI)
  let ?E = "AST_LITERAL \<lparr>line = 1, column = 1, filename = ''t.shay''\<rparr> TOKEN_INTEGER (Lit_int 1)"
  let ?A = "AST_IDENTIFIER \<lparr>line = 1, column = 1, filename = ''t.shay''\<rparr> (Name ''a'')"
  let ?V = "Some (AST_LITERAL \<lparr>line = 1, column = 5, filename = ''t.shay''\<rparr>
                    TOKEN_INTEGER (Lit_int 1))"
  have e: "\<not> is_identifier ?E" and a: "is_identifier ?A"
    by simp_all
  show "map_sum id (\<lambda>r. (fst r, parser_has_error (snd r), parser_get_error (snd r)))
     (parse_rule (Suc 20) Assignment None
        (parser_create (lexer_create ''1 = 2;'' ''t.shay'') blank_token))
     = Inr (Some ?E, True, ''Error at line 1, column 6: Invalid assignment target'')"
  proof -
    let ?P = "parser_create (lexer_create ''1 = 2;'' ''t.shay'') blank_token"
    let ?P1 = "snd (projr (parse_rule 20 Logical_or None ?P))"
    let ?V2 = "fst (projr (parse_rule 20 Assignment None (parser_advance ?P1)))"
    let ?P3 = "snd (projr (parse_rule 20 Assignment None (parser_advance ?P1)))"
    have h1: "parse_rule 20 Logical_or None ?P = Inr (Some ?E, ?P1)"
      by code_simp
    have h2: "check ?P1 TOKEN_ASSIGN"
      by code_simp
    have h3: "parse_rule 20 Assignment None (parser_advance ?P1) = Inr (?V2, ?P3)"
      by code_simp
    have h4: "\<not> panic_mode ?P3"
      by code_simp
    have h5: "take 255 (''Error at line '' @ show_int (line (tok_pos (p_current ?P3)))
                        @ '', column '' @ show_int (column (tok_pos (p_current ?P3)))
                        @ '': Invalid assignment target'')
                = ''Error at line 1, column 6: Invalid assignment target''"
      by code_simp
    from assignment_target_checked_outside_panic_mode [of _ _ 20 ?P ?E ?P1 ?V2 ?P3] h1 h2 h3 h4 e
    have "parse_rule (Suc 20) Assignment None ?P
            = Inr (Some ?E, parser_error ?P3 ''Invalid assignment target'')"
      and "parser_has_error (parser_error ?P3 ''Invalid assignment target'')"
      and "parser_get_error (parser_error ?P3 ''Invalid assignment target'')
             = take 255 (''Error at line '' @ show_int (line (tok_pos (p_current ?P3)))
                         @ '', column '' @ show_int (column (tok_pos (p_current ?P3)))
                         @ '': Invalid assignment target'')"
      by blast+
    then show ?thesis
      using h5 by simp
  qed
  show "map_sum id (\<lambda>r. (fst r, parser_has_error (snd r), parser_get_error (snd r)))
     (parse_rule (Suc 20) Assignment None
        (parser_create (lexer_create ''1 = @ 2;'' ''t.shay'') blank_token))
     = Inr (Some ?E, True, ''Error at line 1, column 6: Lexical error'')"
  proof -
    let ?P = "parser_create (lexer_create ''1 = @ 2;'' ''t.shay'') blank_token"
    let ?P1 = "snd (projr (parse_rule 20 Logical_or None ?P))"
    let ?V2 = "fst (projr (parse_rule 20 Assignment None (parser_advance ?P1)))"
    let ?P3 = "snd (projr (parse_rule 20 Assignment None (parser_advance ?P1)))"
    have h1: "parse_rule 20 Logical_or None ?P = Inr (Some ?E, ?P1)"
      by code_simp
    have h2: "check ?P1 TOKEN_ASSIGN"
      by code_simp
    have h3: "parse_rule 20 Assignment None (parser_advance ?P1) = Inr (?V2, ?P3)"
      by code_simp
    have h4: "panic_mode ?P3"
      by code_simp
    have h5: "parser_has_error ?P3"
      by code_simp
    have h6: "parser_get_error ?P3 = ''Error at line 1, column 6: Lexical error''"
      by code_simp
    from assignment_target_checked_outside_panic_mode [of _ _ 20 ?P ?E ?P1 ?V2 ?P3] h1 h2 h3 h4 e
    have "parse_rule (Suc 20) Assignment None ?P
            = Inr (Some ?E, parser_error ?P3 ''Invalid assignment target'')"
      and "parser_error ?P3 ''Invalid assignment target'' = ?P3"
      by blast+
    then show ?thesis
      using h5 h6 by simp
  qed
  show "map_sum id (\<lambda>r. (fst r, parser_has_error (snd r)))
     (parse_rule (Suc 20) Assignment None
        (parser_create (lexer_create ''a = 1;'' ''t.shay'') blank_token))
     = Inr (Some (AST_ASSIGNMENT \<lparr>line = 1, column = 5, filename = ''t.shay''\<rparr>
                    (Some ?A) TOKEN_ASSIGN ?V), False)"
  proof -
    let ?P = "parser_create (lexer_create ''a = 1;'' ''t.shay'') blank_token"
    let ?P1 = "snd (projr (parse_rule 20 Logical_or None ?P))"
    let ?P3 = "snd (projr (parse_rule 20 Assignment None (parser_advance ?P1)))"
    have h1: "parse_rule 20 Logical_or None ?P = Inr (Some ?A, ?P1)"
      by code_simp
    have h2: "check ?P1 TOKEN_ASSIGN"
      by code_simp
    have h3: "parse_rule 20 Assignment None (parser_advance ?P1) = Inr (?V, ?P3)"
      by code_simp
    have h4: "arena_used ?P3 + sizeof_ASTNode \<le> ARENA_SIZE"
      by code_simp
    have h5: "tok_pos (p_previous ?P3) = \<lparr>line = 1, column = 5, filename = ''t.shay''\<rparr>"
      by code_simp
    have h6: "\<not> had_error ?P3"
      by code_simp
    from assignment_target_checked_outside_panic_mode [of _ _ 20 ?P ?A ?P1 ?V ?P3] h1 h2 h3 h4 a
    have "parse_rule (Suc 20) Assignment None ?P
               = Inr (Some (AST_ASSIGNMENT (tok_pos (p_previous ?P3)) (Some ?A) TOKEN_ASSIGN ?V),
                      ?P3\<lparr>arena_used := arena_used ?P3 + sizeof_ASTNode,
                         nodes_created := nodes_created ?P3 + 1\<rparr>)"
      by blast
    then show ?thesis
      using h5 h6 by (simp add: parser_has_error_def)
  qed
qed

text \<open>
  Claim C5 as stated (an assignment whose left-hand side is not an identifier records
  \<^verbatim>\<open>Invalid assignment target\<close>) fails on \<^verbatim>\<open>1 = @ 2;\<close>: the left-hand side is the literal 1
  and \<^verbatim>\<open>=\<close> is consumed, but the \<^verbatim>\<open>@\<close> behind it has put the parser in panic mode, and the
  one error recorded, after \<^verbatim>\<open>assignment\<close> and after the whole parse, is the lexical one.
\<close>

theorem invalid_target_suppressed_counterexample:
  "map_sum id (\<lambda>r. (fst r, parser_has_error (snd r), parser_get_error (snd r)))
     (parse_rule 40 Assignment None
        (parser_create (lexer_create ''1 = @ 2;'' ''t.shay'') blank_token))
     = Inr (Some (AST_LITERAL \<lparr>line = 1, column = 1, filename = ''t.shay''\<rparr>
                    TOKEN_INTEGER (Lit_int 1)),
            True, ''Error at line 1, column 6: Lexical error'')
   \<and> map_sum id (\<lambda>r. (fst r, parser_has_error (snd r), parser_get_error (snd r)))
        (parse_source 40 ''1 = @ 2;'' ''t.shay'' blank_token)
     = Inr (Some (AST_PROGRAM \<lparr>line = 0, column = 0, filename = []\<rparr>
              [AST_EXPRESSION_STMT \<lparr>line = 1, column = 8, filename = ''t.shay''\<rparr>
                 (Some (AST_LITERAL \<lparr>line = 1, column = 1, filename = ''t.shay''\<rparr>
                          TOKEN_INTEGER (Lit_int 1)))]),
            True, ''Error at line 1, column 6: Lexical error'')"
  by code_simp

text \<open>
  Claim C6 (the C generator succeeds on every tree the parser can produce, boolean and null
  literals included; the other formats fail with a message). The code on the trees of
  \<^verbatim>\<open>true;\<close> and \<^verbatim>\<open>-1;\<close>: \<^verbatim>\<open>primary\<close> tags a boolean literal \<^verbatim>\<open>TOKEN_BOOL_KW\<close> where
  \<^verbatim>\<open>generate_c_literal\<close> has cases for \<^verbatim>\<open>TOKEN_TRUE\<close> and \<^verbatim>\<open>TOKEN_FALSE\<close>, and
  \<^verbatim>\<open>generate_c_expression\<close> has no case for a unary node, so \<^verbatim>\<open>codegen_generate\<close> returns false
  with \<^verbatim>\<open>had_error\<close> set. On \<^verbatim>\<open>null;\<close> it succeeds. With each of the three other formats it
  returns false and sets the flag and the message, whatever the tree.
\<close>

theorem c_generation_fails_on_bool_literal:
  "map_sum id (\<lambda>r. (fst r, codegen_has_error (snd r), codegen_get_error (snd r)))
       (compile_c 40 ''true;'' fname prev0)
     = Inr (False, True, ''Unknown literal type'')
   \<and> map_sum id (\<lambda>r. (fst r, codegen_has_error (snd r), codegen_get_error (snd r)))
       (compile_c 40 ''-1;'' fname prev0)
     = Inr (False, True, ''Unknown expression type'')
   \<and> map_sum id (\<lambda>r. (fst r, codegen_has_error (snd r)))
       (compile_c 40 ''null;'' fname prev0)
     = Inr (True, False)
   \<and> codegen_generate (cg\<lparr>format := OUTPUT_JAVASCRIPT\<rparr>) (Some node)
     = (False, cg\<lparr>format := OUTPUT_JAVASCRIPT, cg_had_error := True,
                  cg_error_message := ''JavaScript output not implemented yet''\<rparr>)
   \<and> codegen_generate (cg\<lparr>format := OUTPUT_PYTHON\<rparr>) (Some node)
     = (False, cg\<lparr>format := OUTPUT_PYTHON, cg_had_error := True,
                  cg_error_message := ''Python output not implemented yet''\<rparr>)
   \<and> codegen_generate (cg\<lparr>format := OUTPUT_BYTECODE\<rparr>) (Some node)
     = (False, cg\<lparr>format := OUTPUT_BYTECODE, cg_had_error := True,
                  cg_error_message := ''Bytecode output not implemented yet''\<rparr>)"
proof (intro conjI)
  show "map_sum id (\<lambda>r. (fst r, codegen_has_error (snd r), codegen_get_error (snd r)))
       (compile_c 40 ''true;'' fname prev0)
     = Inr (False, True, ''Unknown literal type'')"
    by code_simp
  show "map_sum id (\<lambda>r. (fst r, codegen_has_error (snd r), codegen_get_error (snd r)))
       (compile_c 40 ''-1;'' fname prev0)
     = Inr (False, True, ''Unknown expression type'')"
    by code_simp
  show "map_sum id (\<lambda>r. (fst r, codegen_has_error (snd r)))
       (compile_c 40 ''null;'' fname prev0)
     = Inr (True, False)"
    by code_simp
qed (simp_all add: codegen_generate_def codegen_error_def)

text \<open>
  Claim C7. A call of \<^verbatim>\<open>lexer_next_token\<close> that does not return EOF moves the cursor forward
  by at least one byte and not past the end of the source; from every lexer state EOF is
  returned after at most as many calls as bytes are left; and once a call has returned
  EOF, every later call returns EOF.
\<close>

theorem next_token_reaches_eof:
  "(tok_type (fst (lexer_next_token l)) \<noteq> TOKEN_EOF \<longrightarrow>
      current l < current (snd (lexer_next_token l))
      \<and> current (snd (lexer_next_token l)) \<le> length (source l))
   \<and> (\<exists>n \<le> length (source l) - current l. tok_type (nth_token n l) = TOKEN_EOF)
   \<and> (\<forall>n k. tok_type (nth_token n l) = TOKEN_EOF \<longrightarrow> tok_type (nth_token (n + k) l) = TOKEN_EOF)"
proof (intro conjI impI allI)
  assume ne: "tok_type (fst (lexer_next_token l)) \<noteq> TOKEN_EOF"
  show "current l < current (snd (lexer_next_token l))"
    using ne by (rule lexer_next_token_progress)
  show "current (snd (lexer_next_token l)) \<le> length (source l)"
    using in_buffer_lexer_next_token [OF ne] forward_lexer_next_token [of l]
    by (simp add: in_buffer_def forward_def)
next
  show "\<exists>n \<le> length (source l) - current l. tok_type (nth_token n l) = TOKEN_EOF"
    by (rule eof_within)
next
  fix n k
  assume "tok_type (nth_token n l) = TOKEN_EOF"
  then show "tok_type (nth_token (n + k) l) = TOKEN_EOF"
    by (rule eof_stays)
qed

theorem next_token_reaches_eof_witness:
  "tok_type (fst (lexer_next_token (lexer_create ''a b'' ''t.shay''))) \<noteq> TOKEN_EOF
   \<and> current (lexer_create ''a b'' ''t.shay'')
       < current (snd (lexer_next_token (lexer_create ''a b'' ''t.shay'')))
   \<and> current (snd (lexer_next_token (lexer_create ''a b'' ''t.shay''))) \<le> length ''a b''
   \<and> tok_type (nth_token 2 (lexer_create ''a b'' ''t.shay'')) = TOKEN_EOF
   \<and> tok_type (nth_token (2 + 5) (lexer_create ''a b'' ''t.shay'')) = TOKEN_EOF"
proof -
  have h1: "tok_type (fst (lexer_next_token (lexer_create ''a b'' ''t.shay''))) \<noteq> TOKEN_EOF"
    by code_simp
  have h2: "tok_type (nth_token 2 (lexer_create ''a b'' ''t.shay'')) = TOKEN_EOF"
    by code_simp
  have h3: "source (lexer_create ''a b'' ''t.shay'') = ''a b''"
    by (simp add: lexer_create_def)
  show ?thesis
    using next_token_reaches_eof [of "lexer_create ''a b'' ''t.shay''"] h1 h2 h3
    by metis
qed

text \<open>
  Claim C8 (the position of every token has line and column at least 1 and is the start of
  its lexeme). The code on four one-token sources: the NEWLINE token of a source that is one
  newline has line 2 and column 0, \<^verbatim>\<open>make_token\<close> subtracting the length from the column of
  the next line; the STRING token of a quote, a newline and a quote has line 2 and column
  -1; the ERROR token of \<^verbatim>\<open>@\<close> has column 2, \<^verbatim>\<open>error_token\<close> not subtracting the length; the
  IDENTIFIER token of \<^verbatim>\<open>ab\<close> has line 1 and column 1, the start of its lexeme.
\<close>

theorem token_position_after_newline_and_error:
  "fst (lexer_next_token (lexer_create [NEWLINE_CHAR] fname))
     = \<lparr>tok_type = TOKEN_NEWLINE, tok_start = 0, tok_length = 1,
        tok_pos = \<lparr>line = 2, column = 0, filename = fname\<rparr>, tok_value = Unset\<rparr>
   \<and> fst (lexer_next_token (lexer_create [DQUOTE, NEWLINE_CHAR, DQUOTE] fname))
     = \<lparr>tok_type = TOKEN_STRING, tok_start = 0, tok_length = 3,
        tok_pos = \<lparr>line = 2, column = - 1, filename = fname\<rparr>, tok_value = Unset\<rparr>
   \<and> fst (lexer_next_token (lexer_create ''@'' fname))
     = \<lparr>tok_type = TOKEN_ERROR, tok_start = 0, tok_length = 1,
        tok_pos = \<lparr>line = 1, column = 2, filename = fname\<rparr>, tok_value = Unset\<rparr>
   \<and> fst (lexer_next_token (lexer_create ''ab'' fname))
     = \<lparr>tok_type = TOKEN_IDENTIFIER, tok_start = 0, tok_length = 2,
        tok_pos = \<lparr>line = 1, column = 1, filename = fname\<rparr>, tok_value = Unset\<rparr>"
proof (intro conjI)
  show "fst (lexer_next_token (lexer_create [NEWLINE_CHAR] fname))
     = \<lparr>tok_type = TOKEN_NEWLINE, tok_start = 0, tok_length = 1,
        tok_pos = \<lparr>line = 2, column = 0, filename = fname\<rparr>, tok_value = Unset\<rparr>"
    by code_simp
  show "fst (lexer_next_token (lexer_create [DQUOTE, NEWLINE_CHAR, DQUOTE] fname))
     = \<lparr>tok_type = TOKEN_STRING, tok_start = 0, tok_length = 3,
        tok_pos = \<lparr>line = 2, column = - 1, filename = fname\<rparr>, tok_value = Unset\<rparr>"
    by code_simp
  show "fst (lexer_next_token (lexer_create ''@'' fname))
     = \<lparr>tok_type = TOKEN_ERROR, tok_start = 0, tok_length = 1,
        tok_pos = \<lparr>line = 1, column = 2, filename = fname\<rparr>, tok_value = Unset\<rparr>"
    by code_simp
  show "fst (lexer_next_token (lexer_create ''ab'' fname))
     = \<lparr>tok_type = TOKEN_IDENTIFIER, tok_start = 0, tok_length = 2,
        tok_pos = \<lparr>line = 1, column = 1, filename = fname\<rparr>, tok_value = Unset\<rparr>"
    by code_simp
qed

text \<open>
  Claim C9 (a CHAR token exactly for a quote, one character or one backslash escape, and a
  quote; ERROR with \<^verbatim>\<open>Unterminated character literal\<close> when the input ends before the closing
  quote). The code, whose case for the quote starts with an \<^verbatim>\<open>advance\<close> commented
  \<^verbatim>\<open>consume opening quote\<close> after \<^verbatim>\<open>lexer_next_token\<close> has consumed that quote: the four bytes
  \<^verbatim>\<open>'ab'\<close> give one CHAR token of length 4, and the escape of a backslash between quotes
  gives ERROR with that message. \<^verbatim>\<open>'a'\<close> and the escape of \<^verbatim>\<open>n\<close> between quotes give CHAR, and
  \<^verbatim>\<open>'a\<close> at the end of input gives ERROR with the message.
\<close>

theorem char_literal_scans_one_byte_too_far:
  "fst (lexer_next_token (lexer_create [SQUOTE, CHR ''a'', CHR ''b'', SQUOTE] fname))
     = \<lparr>tok_type = TOKEN_CHAR, tok_start = 0, tok_length = 4,
        tok_pos = \<lparr>line = 1, column = 1, filename = fname\<rparr>, tok_value = Unset\<rparr>
   \<and> tok_type (fst (lexer_next_token (lexer_create [SQUOTE, BACKSLASH, BACKSLASH, SQUOTE] fname)))
     = TOKEN_ERROR
   \<and> lexer_get_error (snd (lexer_next_token
        (lexer_create [SQUOTE, BACKSLASH, BACKSLASH, SQUOTE] fname)))
     = ''Unterminated character literal''
   \<and> tok_type (fst (lexer_next_token (lexer_create [SQUOTE, CHR ''a'', SQUOTE] fname)))
     = TOKEN_CHAR
   \<and> tok_type (fst (lexer_next_token (lexer_create [SQUOTE, BACKSLASH, CHR ''n'', SQUOTE] fname)))
     = TOKEN_CHAR
   \<and> tok_type (fst (lexer_next_token (lexer_create [SQUOTE, CHR ''a''] fname))) = TOKEN_ERROR
   \<and> lexer_get_error (snd (lexer_next_token (lexer_create [SQUOTE, CHR ''a''] fname)))
     = ''Unterminated character literal''"
proof (intro conjI)
  show "fst (lexer_next_token (lexer_create [SQUOTE, CHR ''a'', CHR ''b'', SQUOTE] fname))
     = \<lparr>tok_type = TOKEN_CHAR, tok_start = 0, tok_length = 4,
        tok_pos = \<lparr>line = 1, column = 1, filename = fname\<rparr>, tok_value = Unset\<rparr>"
    by code_simp
  show "tok_type (fst (lexer_next_token (lexer_create [SQUOTE, BACKSLASH, BACKSLASH, SQUOTE] fname)))
     = TOKEN_ERROR"
    by code_simp
  show "lexer_get_error (snd (lexer_next_token
        (lexer_create [SQUOTE, BACKSLASH, BACKSLASH, SQUOTE] fname)))
     = ''Unterminated character literal''"
    by code_simp
  show "tok_type (fst (lexer_next_token (lexer_create [SQUOTE, CHR ''a'', SQUOTE] fname)))
     = TOKEN_CHAR"
    by code_simp
  show "tok_type (fst (lexer_next_token (lexer_create [SQUOTE, BACKSLASH, CHR ''n'', SQUOTE] fname)))
     = TOKEN_CHAR"
    by code_simp
  show "tok_type (fst (lexer_next_token (lexer_create [SQUOTE, CHR ''a''] fname))) = TOKEN_ERROR"
    by code_simp
  show "lexer_get_error (snd (lexer_next_token (lexer_create [SQUOTE, CHR ''a''] fname)))
     = ''Unterminated character literal''"
    by code_simp
qed

text \<open>
  Claim C10. \<^verbatim>\<open>lexer_peek_token\<close> leaves the cursor, the start pointer, the position, the
  token counter and \<^verbatim>\<open>has_error\<close> as they were, and leaves in \<^verbatim>\<open>error_message\<close> what its call
  of \<^verbatim>\<open>lexer_next_token\<close> left there: when the token peeked is an ERROR token,
  \<^verbatim>\<open>lexer_has_error\<close> reports the value from before the peek and \<^verbatim>\<open>lexer_get_error\<close> returns
  the message of that error, one of the four lexical error messages; when it is not, the
  message is the one from before the peek.
\<close>

theorem peek_keeps_all_but_message:
  "current (snd (lexer_peek_token l)) = current l
   \<and> start (snd (lexer_peek_token l)) = start l
   \<and> pos (snd (lexer_peek_token l)) = pos l
   \<and> tokens_processed (snd (lexer_peek_token l)) = tokens_processed l
   \<and> has_error (snd (lexer_peek_token l)) = has_error l
   \<and> error_message (snd (lexer_peek_token l)) = error_message (snd (lexer_next_token l))
   \<and> (tok_type (fst (lexer_peek_token l)) = TOKEN_ERROR \<longrightarrow>
        lexer_has_error (snd (lexer_peek_token l)) = lexer_has_error l
        \<and> lexer_get_error (snd (lexer_peek_token l)) \<in> lexical_error_messages)
   \<and> (tok_type (fst (lexer_peek_token l)) \<noteq> TOKEN_ERROR \<longrightarrow>
        lexer_get_error (snd (lexer_peek_token l)) = lexer_get_error l)"
  using lexer_next_token_error_message [of l] lexer_next_token_keeps_message [of l]
  by (simp add: lexer_peek_token_eq lexer_has_error_def lexer_get_error_def)

theorem peek_keeps_all_but_message_witness:
  "tok_type (fst (lexer_peek_token (lexer_create ''@'' ''t.shay''))) = TOKEN_ERROR
   \<and> lexer_has_error (lexer_create ''@'' ''t.shay'') = False
   \<and> lexer_has_error (snd (lexer_peek_token (lexer_create ''@'' ''t.shay''))) = False
   \<and> lexer_get_error (lexer_create ''@'' ''t.shay'') = []
   \<and> lexer_get_error (snd (lexer_peek_token (lexer_create ''@'' ''t.shay'')))
        = ''Unexpected character''
   \<and> tok_type (fst (lexer_peek_token (lexer_create ''x'' ''t.shay''))) \<noteq> TOKEN_ERROR
   \<and> lexer_get_error (snd (lexer_peek_token (lexer_create ''x'' ''t.shay''))) = []"
proof -
  have h1: "tok_type (fst (lexer_peek_token (lexer_create ''@'' ''t.shay''))) = TOKEN_ERROR"
    by code_simp
  have h2: "lexer_has_error (lexer_create ''@'' ''t.shay'') = False"
    by code_simp
  have h3: "lexer_get_error (snd (lexer_peek_token (lexer_create ''@'' ''t.shay'')))
              = ''Unexpected character''"
    by code_simp
  have h4: "lexer_get_error (lexer_create ''@'' ''t.shay'') = []"
    by code_simp
  have h5: "tok_type (fst (lexer_peek_token (lexer_create ''x'' ''t.shay''))) \<noteq> TOKEN_ERROR"
    by code_simp
  have h6: "lexer_get_error (lexer_create ''x'' ''t.shay'') = []"
    by code_simp
  show ?thesis
    using peek_keeps_all_but_message [of "lexer_create ''@'' ''t.shay''"]
      peek_keeps_all_but_message [of "lexer_create ''x'' ''t.shay''"]
      h1 h2 h3 h4 h5 h6
    by simp
qed

end
